theory Spec2Isabelle
  imports Complex_Main "HOL-Library.Sublist"
begin

section \<open>Work Discovery: \<open>find_unprocessed_files\<close> (src/data-clean/app.py, lines 100-128)\<close>

text \<open>
  File names are strings. The shared data directory is modelled by the list of the names
  it holds, in the order the operating system lists them; \<open>glob.glob\<close> keeps that order.

  Python's \<open>s.replace(old, "")\<close> removes every non-overlapping occurrence of \<open>old\<close>,
  scanning from the left; it is not limited to a prefix or a suffix.
\<close>

function str_remove :: "string \<Rightarrow> string \<Rightarrow> string" where
  "str_remove old [] = []"
| "str_remove old (c # cs) =
     (if old \<noteq> [] \<and> prefix old (c # cs)
      then str_remove old (drop (length old) (c # cs))
      else c # str_remove old cs)"
  by pat_completeness auto
termination
  by (relation "measure (\<lambda>(old, s). length s)") (auto simp: neq_Nil_conv)

text \<open>
  A glob pattern \<open>P*.csv\<close> matches the names that start with \<open>P\<close> and end with \<open>.csv\<close>,
  the star standing for the (possibly empty) text between the two.
\<close>

definition glob_match :: "string \<Rightarrow> string \<Rightarrow> bool" where
  "glob_match pre name \<longleftrightarrow>
     prefix pre name \<and> suffix ''.csv'' (drop (length pre) name)"

definition path_join :: "string \<Rightarrow> string \<Rightarrow> string" where
  "path_join dir name = dir @ ''/'' @ name"

text \<open>\<open>os.path.basename\<close>: the text after the last slash.\<close>

fun basename :: "string \<Rightarrow> string" where
  "basename [] = []"
| "basename (c # cs) = (if CHR ''/'' \<in> set cs then basename cs
                        else if c = CHR ''/'' then cs else c # cs)"

definition glob :: "string \<Rightarrow> string list \<Rightarrow> string \<Rightarrow> string list" where
  "glob dir listing pre = map (path_join dir) (filter (glob_match pre) listing)"

definition processed_names :: "string \<Rightarrow> string list \<Rightarrow> string set" where
  "processed_names dir listing =
     set (map (\<lambda>pf. str_remove ''.csv'' (str_remove ''processed_'' (basename pf)))
              (glob dir listing ''processed_''))"

definition input_base_name :: "string \<Rightarrow> string \<Rightarrow> string" where
  "input_base_name kind_prefix f = str_remove ''.csv'' (str_remove kind_prefix (basename f))"

definition find_unprocessed_files :: "string \<Rightarrow> string list \<Rightarrow> string list" where
  "find_unprocessed_files dir listing =
     (let quote_files = glob dir listing ''stock_quotes_'';
          historical_files = glob dir listing ''stock_historical_'';
          done = processed_names dir listing
      in filter (\<lambda>f. input_base_name ''stock_quotes_'' f \<notin> done) quote_files
         @ filter (\<lambda>f. input_base_name ''stock_historical_'' f \<notin> done) historical_files)"

text \<open>
  Output naming of \<open>process_stock_data\<close> (lines 259-263): the token is the text after the
  last underscore of the input's base name, with every \<open>.csv\<close> removed.
\<close>

fun after_last_underscore :: "string \<Rightarrow> string" where
  "after_last_underscore [] = []"
| "after_last_underscore (c # cs) =
     (if CHR ''_'' \<in> set cs then after_last_underscore cs
      else if c = CHR ''_'' then cs else c # cs)"

fun contains :: "string \<Rightarrow> string \<Rightarrow> bool" where
  "contains sub [] = (sub = [])"
| "contains sub (c # cs) = (prefix sub (c # cs) \<or> contains sub cs)"

definition file_type_of :: "string \<Rightarrow> string" where
  "file_type_of file_path =
     (if contains ''stock_quotes_'' file_path then ''quotes'' else ''historical'')"

definition output_file :: "string \<Rightarrow> string \<Rightarrow> string" where
  "output_file dir file_path =
     path_join dir (''processed_'' @ file_type_of file_path @ ''_''
        @ str_remove ''.csv'' (after_last_underscore (basename file_path)) @ ''.csv'')"


section \<open>Data model\<close>

text \<open>
  A dataset is a pandas data frame: an ordered list of named columns of equal length.
  \<open>read_csv\<close> gives a column a numeric dtype when every non-empty entry parses as a
  number, and dtype \<open>object\<close> otherwise. A numeric cell is a number or null (NaN); the
  numbers of an input file are finite. Arithmetic on them is modelled over the reals:
  the rounding of binary floating point is not represented.
\<close>

datatype column = NumCol "real option list" | StrCol "string option list"

type_synonym frame = "(string \<times> column) list"

fun col_length :: "column \<Rightarrow> nat" where
  "col_length (NumCol xs) = length xs"
| "col_length (StrCol xs) = length xs"

fun col_nulls :: "column \<Rightarrow> nat" where
  "col_nulls (NumCol xs) = length (filter (\<lambda>x. x = None) xs)"
| "col_nulls (StrCol xs) = length (filter (\<lambda>x. x = None) xs)"

fun is_numeric :: "column \<Rightarrow> bool" where
  "is_numeric (NumCol xs) = True"
| "is_numeric (StrCol xs) = False"

text \<open>\<open>len(df)\<close>: the number of rows.\<close>

fun nrows :: "frame \<Rightarrow> nat" where
  "nrows [] = 0"
| "nrows ((name, c) # df) = col_length c"

text \<open>
  Values computed by a division may leave the finite numbers: IEEE division by zero gives
  an infinity or NaN instead of raising. NaN is what pandas counts as null.
\<close>

datatype float64 = NaN | Finite real | PosInf | NegInf

datatype exn =
    ZeroDivisionError string
  | KeyError string
  | TypeError string
  | DataError string
  | RedisError string
  | OSError string
  | UnboundLocalError string
  | OtherError string

fun exn_str :: "exn \<Rightarrow> string" where
  "exn_str (ZeroDivisionError m) = m"
| "exn_str (KeyError m) = m"
| "exn_str (TypeError m) = m"
| "exn_str (DataError m) = m"
| "exn_str (RedisError m) = m"
| "exn_str (OSError m) = m"
| "exn_str (UnboundLocalError m) = m"
| "exn_str (OtherError m) = m"


section \<open>Indicator Engine: \<open>calculate_technical_indicators\<close> (lines 130-171)\<close>

subsection \<open>Series operations of pandas\<close>

text \<open>
  \<open>s.rolling(window=w).mean()\<close>: \<open>min_periods\<close> defaults to the window size, so row \<open>i\<close>
  holds the mean of the non-null values among the trailing \<open>w\<close> rows when there are
  \<open>w\<close> of them, and null otherwise.
\<close>

definition window_at :: "nat \<Rightarrow> nat \<Rightarrow> 'a list \<Rightarrow> 'a list" where
  "window_at w i xs = drop (Suc i - w) (take (Suc i) xs)"

fun observations :: "real option list \<Rightarrow> real list" where
  "observations [] = []"
| "observations (None # xs) = observations xs"
| "observations (Some v # xs) = v # observations xs"

definition rolling_mean :: "nat \<Rightarrow> real option list \<Rightarrow> real option list" where
  "rolling_mean w xs =
     map (\<lambda>i. let obs = observations (window_at w i xs)
               in if w \<le> length obs then Some (sum_list obs / real (length obs)) else None)
         [0..<length xs]"

text \<open>
  \<open>s.ewm(span=n).mean()\<close> with the defaults \<open>adjust=True\<close>, \<open>ignore_na=False\<close>,
  \<open>min_periods=0\<close>. The smoothing factor is \<open>\<alpha> = 2 / (n + 1)\<close>. The running state is the
  weighted mean so far (NaN before the first observation) and the total weight of the
  observations in it; a row without observation only ages the weight. The output of a row
  is the running mean after that row.
\<close>

fun ewm_step :: "real \<Rightarrow> real option \<times> real \<Rightarrow> real option \<Rightarrow> real option \<times> real" where
  "ewm_step \<alpha> (None, old_wt) cur = (cur, old_wt)"
| "ewm_step \<alpha> (Some weighted, old_wt) None = (Some weighted, old_wt * (1 - \<alpha>))"
| "ewm_step \<alpha> (Some weighted, old_wt) (Some cur) =
     (let old_wt' = old_wt * (1 - \<alpha>)
      in (Some (if weighted \<noteq> cur then (old_wt' * weighted + 1 * cur) / (old_wt' + 1)
                else weighted),
          old_wt' + 1))"

fun ewm_from :: "real \<Rightarrow> real option \<times> real \<Rightarrow> real option list \<Rightarrow> real option list" where
  "ewm_from \<alpha> st [] = []"
| "ewm_from \<alpha> st (x # xs) = (let st' = ewm_step \<alpha> st x in fst st' # ewm_from \<alpha> st' xs)"

definition ewm_mean :: "real \<Rightarrow> real option list \<Rightarrow> real option list" where
  "ewm_mean spn xs =
     (case xs of [] \<Rightarrow> [] | x # rest \<Rightarrow> x # ewm_from (2 / (spn + 1)) (x, 1) rest)"

text \<open>Elementwise difference of two series; null when either side is null.\<close>

fun opt_sub :: "real option \<Rightarrow> real option \<Rightarrow> real option" where
  "opt_sub (Some a) (Some b) = Some (a - b)"
| "opt_sub a b = None"

definition series_sub :: "real option list \<Rightarrow> real option list \<Rightarrow> real option list" where
  "series_sub xs ys = map (\<lambda>(a, b). opt_sub a b) (zip xs ys)"

text \<open>\<open>s.diff()\<close>: the difference to the previous row; the first row is null.\<close>

definition diff :: "real option list \<Rightarrow> real option list" where
  "diff xs = map (\<lambda>i. if i = 0 then None else opt_sub (xs ! i) (xs ! (i - 1))) [0..<length xs]"

text \<open>
  \<open>delta.where(delta > 0, 0)\<close> keeps the strictly positive deltas and puts 0 everywhere
  else, also where the delta is null (a comparison with NaN is false). The loss series
  negates \<open>delta.where(delta < 0, 0)\<close>.
\<close>

fun gain_of :: "real option \<Rightarrow> real option" where
  "gain_of (Some d) = Some (if d > 0 then d else 0)"
| "gain_of None = Some 0"

fun loss_of :: "real option \<Rightarrow> real option" where
  "loss_of (Some d) = Some (- (if d < 0 then d else 0))"
| "loss_of None = Some 0"

text \<open>
  \<open>gain / loss\<close> is a division of float arrays: a zero divisor gives an infinity, or NaN
  for \<open>0 / 0\<close>, and no exception. \<open>100 - (100 / (1 + rs))\<close> continues in the same
  arithmetic.
\<close>

fun float_div :: "float64 \<Rightarrow> float64 \<Rightarrow> float64" where
  "float_div (Finite a) (Finite b) =
     (if b \<noteq> 0 then Finite (a / b)
      else if a > 0 then PosInf else if a < 0 then NegInf else NaN)"
| "float_div (Finite a) PosInf = Finite 0"
| "float_div (Finite a) NegInf = Finite 0"
| "float_div PosInf (Finite b) = (if b \<ge> 0 then PosInf else NegInf)"
| "float_div NegInf (Finite b) = (if b \<ge> 0 then NegInf else PosInf)"
| "float_div a b = NaN"

fun float_add :: "float64 \<Rightarrow> float64 \<Rightarrow> float64" where
  "float_add (Finite a) (Finite b) = Finite (a + b)"
| "float_add NaN b = NaN"
| "float_add a NaN = NaN"
| "float_add PosInf NegInf = NaN"
| "float_add NegInf PosInf = NaN"
| "float_add PosInf b = PosInf"
| "float_add NegInf b = NegInf"
| "float_add a PosInf = PosInf"
| "float_add a NegInf = NegInf"

fun float_neg :: "float64 \<Rightarrow> float64" where
  "float_neg NaN = NaN"
| "float_neg (Finite a) = Finite (- a)"
| "float_neg PosInf = NegInf"
| "float_neg NegInf = PosInf"

definition float_sub :: "float64 \<Rightarrow> float64 \<Rightarrow> float64" where
  "float_sub a b = float_add a (float_neg b)"

fun float_mul :: "float64 \<Rightarrow> float64 \<Rightarrow> float64" where
  "float_mul (Finite a) (Finite b) = Finite (a * b)"
| "float_mul NaN b = NaN"
| "float_mul a NaN = NaN"
| "float_mul PosInf (Finite b) = (if b > 0 then PosInf else if b < 0 then NegInf else NaN)"
| "float_mul NegInf (Finite b) = (if b > 0 then NegInf else if b < 0 then PosInf else NaN)"
| "float_mul (Finite a) PosInf = (if a > 0 then PosInf else if a < 0 then NegInf else NaN)"
| "float_mul (Finite a) NegInf = (if a > 0 then NegInf else if a < 0 then PosInf else NaN)"
| "float_mul PosInf PosInf = PosInf"
| "float_mul NegInf NegInf = PosInf"
| "float_mul PosInf NegInf = NegInf"
| "float_mul NegInf PosInf = NegInf"

fun to_float :: "real option \<Rightarrow> float64" where
  "to_float None = NaN"
| "to_float (Some v) = Finite v"

definition rsi_of :: "real option \<Rightarrow> real option \<Rightarrow> float64" where
  "rsi_of gain loss =
     (let rs = float_div (to_float gain) (to_float loss)
      in float_sub (Finite 100) (float_div (Finite 100) (float_add (Finite 1) rs)))"

subsection \<open>Sorting by date\<close>

text \<open>
  \<open>df.sort_values('date').reset_index(drop=True)\<close> reorders every column by the same
  permutation: ascending dates, nulls last. Rows with equal dates are kept in their input
  order here; no property below depends on how ties are ordered. Strings compare as in
  Python, character by character.
\<close>

fun str_le :: "string \<Rightarrow> string \<Rightarrow> bool" where
  "str_le [] ys = True"
| "str_le (x # xs) [] = False"
| "str_le (x # xs) (y # ys) =
     ((of_char x :: nat) < of_char y \<or> (x = y \<and> str_le xs ys))"

fun null_last_le :: "('a \<Rightarrow> 'a \<Rightarrow> bool) \<Rightarrow> 'a option \<Rightarrow> 'a option \<Rightarrow> bool" where
  "null_last_le le a None = True"
| "null_last_le le None (Some y) = False"
| "null_last_le le (Some x) (Some y) = le x y"

fun insort_by :: "('a \<Rightarrow> 'a \<Rightarrow> bool) \<Rightarrow> 'a \<Rightarrow> 'a list \<Rightarrow> 'a list" where
  "insort_by le x [] = [x]"
| "insort_by le x (y # ys) = (if le x y then x # y # ys else y # insort_by le x ys)"

definition sort_by :: "('a \<Rightarrow> 'a \<Rightarrow> bool) \<Rightarrow> 'a list \<Rightarrow> 'a list" where
  "sort_by le xs = foldr (insort_by le) xs []"

fun argsort :: "column \<Rightarrow> nat list" where
  "argsort (NumCol ks) =
     sort_by (\<lambda>i j. null_last_le (\<le>) (ks ! i) (ks ! j)) [0..<length ks]"
| "argsort (StrCol ks) =
     sort_by (\<lambda>i j. null_last_le str_le (ks ! i) (ks ! j)) [0..<length ks]"

fun take_rows :: "nat list \<Rightarrow> column \<Rightarrow> column" where
  "take_rows perm (NumCol xs) = NumCol (map (\<lambda>i. xs ! i) perm)"
| "take_rows perm (StrCol xs) = StrCol (map (\<lambda>i. xs ! i) perm)"

definition sort_values :: "string \<Rightarrow> frame \<Rightarrow> frame" where
  "sort_values key df =
     (case map_of df key of
        None \<Rightarrow> df
      | Some k \<Rightarrow> map (\<lambda>(name, c). (name, take_rows (argsort k) c)) df)"

subsection \<open>The indicator columns\<close>

text \<open>
  The columns the function assigns, in its order (lines 139-157). The Bollinger band,
  daily return and volatility columns of lines 159-169 are appended after these and read
  only \<open>close\<close>; they leave the columns below untouched and are not modelled.
\<close>

record indicators =
  sma_5 :: "real option list"
  sma_20 :: "real option list"
  ema_12 :: "real option list"
  ema_26 :: "real option list"
  macd :: "real option list"
  macd_signal :: "real option list"
  macd_histogram :: "real option list"
  gain :: "real option list"
  loss :: "real option list"
  rsi :: "float64 list"

definition indicators_of :: "real option list \<Rightarrow> indicators" where
  "indicators_of close =
     (let e12 = ewm_mean 12 close;
          e26 = ewm_mean 26 close;
          m = series_sub e12 e26;
          sig = ewm_mean 9 m;
          delta = diff close;
          gain_avg = rolling_mean 14 (map gain_of delta);
          loss_avg = rolling_mean 14 (map loss_of delta)
      in \<lparr> sma_5 = rolling_mean 5 close,
           sma_20 = rolling_mean 20 close,
           ema_12 = e12,
           ema_26 = e26,
           macd = m,
           macd_signal = sig,
           macd_histogram = series_sub m sig,
           gain = gain_avg,
           loss = loss_avg,
           rsi = map (\<lambda>(g, l). rsi_of g l) (zip gain_avg loss_avg) \<rparr>)"

text \<open>
  The result is the frame as the function leaves it (sorted by date when there is a date
  column) and the new columns, or the frame alone when there is no \<open>close\<close> column. A
  \<open>close\<close> column of dtype \<open>object\<close> makes the first rolling mean raise.
\<close>

definition calculate_technical_indicators :: "frame \<Rightarrow> exn + frame \<times> indicators option" where
  "calculate_technical_indicators df =
     (if map_of df ''close'' = None then Inr (df, None)
      else
        let df' = (if map_of df ''date'' \<noteq> None then sort_values ''date'' df else df)
        in case map_of df' ''close'' of
             Some (NumCol close) \<Rightarrow> Inr (df', Some (indicators_of close))
           | _ \<Rightarrow> Inl (DataError ''No numeric types to aggregate''))"


text \<open>A close series for the examples: 1, 2, ..., 15, rising at every row.\<close>

definition rising_close :: "real option list" where
  "rising_close = map (\<lambda>k. Some (real k)) [1..<16]"

text \<open>
  A second close series for the examples: 1, 2, ..., 21. The pipeline runs the engine on
  frames of more than 20 rows, so 21 rows are the fewest that reach it.
\<close>

definition rising_21 :: "real list" where
  "rising_21 = [1, 2, 3, 4, 5, 6, 7, 8, 9, 10, 11, 12, 13, 14, 15, 16, 17, 18, 19, 20, 21]"

subsection \<open>The exponentially weighted mean, in closed form\<close>

text \<open>
  The reading of ``exponentially weighted mean with smoothing factor \<open>\<alpha>\<close> over the full
  history'' used below: at row \<open>i\<close>, the observation \<open>k\<close> rows back has weight
  \<open>(1 - \<alpha>) ^ k\<close>, rows without observation have weight 0, and the mean is the weighted
  sum divided by the sum of the weights; it is null while there is no observation.
\<close>

fun cell_value :: "real option \<Rightarrow> real" where
  "cell_value None = 0"
| "cell_value (Some v) = v"

fun cell_weight :: "real option \<Rightarrow> real" where
  "cell_weight None = 0"
| "cell_weight (Some v) = 1"

definition exp_weighted_mean :: "real \<Rightarrow> real option list \<Rightarrow> nat \<Rightarrow> real option" where
  "exp_weighted_mean \<alpha> xs i =
     (if list_all (\<lambda>x. x = None) (take (Suc i) xs) then None
      else Some ((\<Sum>k\<leftarrow>[0..<Suc i]. (1 - \<alpha>) ^ k * cell_value (xs ! (i - k)))
               / (\<Sum>k\<leftarrow>[0..<Suc i]. (1 - \<alpha>) ^ k * cell_weight (xs ! (i - k)))))"


text \<open>
  The words ``recursive exponentially weighted mean with smoothing factor \<open>\<alpha>\<close>'' also
  name the plain recursion, defined here for comparison on a series without nulls: the
  first value is the first observation, and every later value is \<open>\<alpha>\<close> times the
  observation plus \<open>1 - \<alpha>\<close> times the value before. It is what
  \<open>ewm(span=n, adjust=False)\<close> computes; the code calls \<open>ewm(span=n)\<close>, whose default is
  \<open>adjust=True\<close>.
\<close>

fun ema_rec_from :: "real \<Rightarrow> real \<Rightarrow> real list \<Rightarrow> real list" where
  "ema_rec_from \<alpha> y [] = []"
| "ema_rec_from \<alpha> y (x # xs) = (let y' = \<alpha> * x + (1 - \<alpha>) * y in y' # ema_rec_from \<alpha> y' xs)"

fun ema_by_recursion :: "real \<Rightarrow> real list \<Rightarrow> real list" where
  "ema_by_recursion \<alpha> [] = []"
| "ema_by_recursion \<alpha> (x # xs) = x # ema_rec_from \<alpha> x xs"

text \<open>
  Auxiliary to the proofs: the same sums in Horner form over the history (most recent row
  first), and the state \<open>ewm_step\<close> has reached after a history.
\<close>

fun horner :: "real \<Rightarrow> real list \<Rightarrow> real" where
  "horner q [] = 0"
| "horner q (v # vs) = v + q * horner q vs"

definition ewm_inv :: "real \<Rightarrow> real option list \<Rightarrow> real option \<times> real" where
  "ewm_inv q h =
     (if list_all (\<lambda>x. x = None) h then (None, 1)
      else (Some (horner q (rev (map cell_value h)) / horner q (rev (map cell_weight h))),
            horner q (rev (map cell_weight h))))"


section \<open>Record Normalizer: imputation in \<open>process_stock_data\<close> (lines 199-220)\<close>

text \<open>
  \<open>s.fillna(method='ffill')\<close> carries the last non-null value forward; leading nulls stay.
  \<open>s.fillna(method='bfill')\<close> takes the next non-null value; trailing nulls stay.
\<close>

fun ffill_from :: "'a option \<Rightarrow> 'a option list \<Rightarrow> 'a option list" where
  "ffill_from last_valid [] = []"
| "ffill_from last_valid (None # xs) = last_valid # ffill_from last_valid xs"
| "ffill_from last_valid (Some v # xs) = Some v # ffill_from (Some v) xs"

definition ffill :: "'a option list \<Rightarrow> 'a option list" where
  "ffill xs = ffill_from None xs"

fun bfill :: "'a option list \<Rightarrow> 'a option list" where
  "bfill [] = []"
| "bfill (Some v # xs) = Some v # bfill xs"
| "bfill (None # xs) = (case bfill xs of [] \<Rightarrow> [None] | y # ys \<Rightarrow> y # y # ys)"

text \<open>
  \<open>s.median()\<close> skips nulls: the middle of the sorted non-null values, the mean of the two
  middle ones when their number is even, NaN when there is none. \<open>s.fillna(v)\<close> puts \<open>v\<close>
  in place of every null; filling with NaN changes nothing.
\<close>

definition median :: "real option list \<Rightarrow> real option" where
  "median xs =
     (let vs = sort (observations xs); n = length vs
      in if n = 0 then None
         else if odd n then Some (vs ! (n div 2))
         else Some ((vs ! (n div 2 - 1) + vs ! (n div 2)) / 2))"

definition fillna :: "'a option \<Rightarrow> 'a option list \<Rightarrow> 'a option list" where
  "fillna v xs = map (\<lambda>x. case x of None \<Rightarrow> v | Some u \<Rightarrow> Some u) xs"

definition price_columns :: "string list" where
  "price_columns = [''current_price'', ''high_price'', ''low_price'', ''open_price'',
                    ''close'', ''high'', ''low'', ''open'']"

fun impute_column :: "string \<Rightarrow> column \<Rightarrow> column" where
  "impute_column name (NumCol xs) =
     (if name \<in> set price_columns then NumCol (bfill (ffill xs))
      else if name = ''volume'' then NumCol (fillna (median xs) xs)
      else NumCol (fillna (median xs) xs))"
| "impute_column name (StrCol xs) = StrCol xs"

definition numeric_nulls :: "frame \<Rightarrow> nat" where
  "numeric_nulls df = sum_list (map (\<lambda>(name, c). col_nulls c) (filter (\<lambda>(name, c). is_numeric c) df))"

text \<open>
  The stage returns the frame and, when it ran, the step it logs: the numbers of nulls in
  the numeric columns before and after.
\<close>

definition handle_missing_values :: "frame \<Rightarrow> frame \<times> (nat \<times> nat) option" where
  "handle_missing_values df =
     (let missing_before = numeric_nulls df
      in if missing_before > 0
         then (let df' = map (\<lambda>(name, c). (name, impute_column name c)) df
               in (df', Some (missing_before, numeric_nulls df')))
         else (df, None))"

section \<open>Quote Analyzer: market analysis in \<open>process_stock_data\<close> (lines 230-250)\<close>

text \<open>
  \<open>df.iterrows()\<close> hands out each row as a series over the columns. When every column is
  numeric the row holds numpy floats, whose division by zero gives an infinity or NaN.
  When the frame also has an \<open>object\<close> column (such as \<open>symbol\<close>) the row holds Python
  numbers, whose division by zero raises \<open>ZeroDivisionError\<close>.
\<close>

datatype cell = NullCell | NumCell real | StrCell string

fun cell_at :: "column \<Rightarrow> nat \<Rightarrow> cell" where
  "cell_at (NumCol xs) i =
     (if i < length xs then (case xs ! i of None \<Rightarrow> NullCell | Some v \<Rightarrow> NumCell v) else NullCell)"
| "cell_at (StrCol xs) i =
     (if i < length xs then (case xs ! i of None \<Rightarrow> NullCell | Some s \<Rightarrow> StrCell s) else NullCell)"

definition all_numeric :: "frame \<Rightarrow> bool" where
  "all_numeric df = list_all (\<lambda>(name, c). is_numeric c) df"

fun float_gt :: "float64 \<Rightarrow> real \<Rightarrow> bool" where
  "float_gt NaN c = False"
| "float_gt (Finite x) c = (x > c)"
| "float_gt PosInf c = True"
| "float_gt NegInf c = False"

definition sentiment_of :: "float64 \<Rightarrow> string" where
  "sentiment_of change_pct =
     (if float_gt change_pct 2 then ''Strong Bullish''
      else if float_gt change_pct 0 then ''Bullish''
      else if float_gt change_pct (- 2) then ''Bearish''
      else ''Strong Bearish'')"

text \<open>
  One pass of the loop body: \<open>None\<close> when the row is left alone, otherwise the two cells
  written, \<open>change_percent_calc\<close> and \<open>sentiment\<close>. \<open>row['previous_close']\<close> is only read
  when \<open>current_price\<close> is non-null, and raises \<open>KeyError\<close> when there is no such column.
\<close>

definition analyze_row :: "frame \<Rightarrow> column \<Rightarrow> nat \<Rightarrow> exn + (float64 \<times> string) option" where
  "analyze_row df cp_col i =
     (case cell_at cp_col i of
        NullCell \<Rightarrow> Inr None
      | cp \<Rightarrow>
         (case map_of df ''previous_close'' of
            None \<Rightarrow> Inl (KeyError ''previous_close'')
          | Some pc_col \<Rightarrow>
             (case (cp, cell_at pc_col i) of
                (_, NullCell) \<Rightarrow> Inr None
              | (NumCell a, NumCell b) \<Rightarrow>
                  if b = 0 \<and> \<not> all_numeric df
                  then Inl (ZeroDivisionError ''float division by zero'')
                  else (let change_pct =
                              float_mul (float_div (Finite (a - b)) (Finite b)) (Finite 100)
                        in Inr (Some (change_pct, sentiment_of change_pct)))
              | _ \<Rightarrow> Inl (TypeError ''unsupported operand type(s) for -''))))"

fun analyze_rows ::
  "(nat \<Rightarrow> exn + (float64 \<times> string) option) \<Rightarrow> nat list \<Rightarrow> exn + (float64 \<times> string) option list"
where
  "analyze_rows f [] = Inr []"
| "analyze_rows f (i # is) =
     (case f i of
        Inl e \<Rightarrow> Inl e
      | Inr r \<Rightarrow> (case analyze_rows f is of Inl e \<Rightarrow> Inl e | Inr rs \<Rightarrow> Inr (r # rs)))"

text \<open>
  The result is \<open>None\<close> when the stage does not apply (no \<open>current_price\<close> column), and
  otherwise what the loop wrote for each row. The first exception ends the loop and the
  processing of the file.
\<close>

definition quote_analysis :: "frame \<Rightarrow> exn + (float64 \<times> string) option list option" where
  "quote_analysis df =
     (case map_of df ''current_price'' of
        None \<Rightarrow> Inr None
      | Some cp_col \<Rightarrow>
          (case analyze_rows (analyze_row df cp_col) [0..<nrows df] of
             Inl e \<Rightarrow> Inl e
           | Inr rows \<Rightarrow> Inr (Some rows)))"

text \<open>Auxiliary to the proofs: what the loop writes for a row of two numeric columns.\<close>

definition row_result :: "real option list \<Rightarrow> real option list \<Rightarrow> nat \<Rightarrow> (float64 \<times> string) option" where
  "row_result cps pcs i =
     (case (cps ! i, pcs ! i) of
        (Some a, Some b) \<Rightarrow>
          Some (Finite ((a - b) / b * 100), sentiment_of (Finite ((a - b) / b * 100)))
      | _ \<Rightarrow> None)"

section \<open>Rounding to two decimals\<close>

text \<open>
  \<open>round(x, 2)\<close>, as the batch summary applies it to the average quality score (lines
  323-325): the nearest multiple of 0.01, a tie going to the even neighbour. Like the
  rest of the arithmetic it is taken over the reals.
\<close>

definition rint :: "real \<Rightarrow> int" where
  "rint x =
     (let f = \<lfloor>x\<rfloor>; d = x - of_int f
      in if d < 1 / 2 then f else if d > 1 / 2 then f + 1 else if even f then f else f + 1)"

definition round2 :: "real \<Rightarrow> real" where
  "round2 x = of_int (rint (x * 100)) / 100"


section \<open>Pipeline Orchestrator: \<open>update_status\<close>, \<open>process_stock_data\<close>, \<open>process_all_files\<close>\<close>

text \<open>
  The orchestrator is modelled with its collaborators as parameters: the directory
  listing, the outcome of the body of \<open>process_stock_data\<close> on each file (its statistics,
  or the exception it raises), and the outcome of each call to the status store, the file
  system and the event bus (\<open>None\<close>: the call succeeds; \<open>Some e\<close>: it raises \<open>e\<close>).
  Time stamps are left out of the records.
\<close>

record processing_stats =
  original_rows :: nat
  file_type :: string
  steps :: "string list"
  final_rows :: nat
  quality_score :: "real option"

text \<open>What \<open>process_stock_data\<close> returns beside the flag: the statistics, or \<open>{'error': str(e)}\<close>.\<close>

datatype stats = Stats processing_stats | ErrorStats string

record file_entry =
  input_file :: string
  entry_file_type :: string
  entry_stats :: processing_stats

record batch_summary =
  total_files_processed :: nat
  files :: "file_entry list"
  average_quality_score :: "real option"

record status_data =
  status :: string
  message :: string
  files_processed :: "nat option"
  processed_files :: "string list option"
  status_average :: "real option option"

datatype event = DataProcessed nat batch_summary

record env =
  data_path :: string
  listing :: "string list"
  body :: "string \<Rightarrow> exn + processing_stats"
  hset :: "status_data \<Rightarrow> exn option"
  write_summary :: "batch_summary \<Rightarrow> exn option"
  publish :: "event \<Rightarrow> exn option"

text \<open>
  What a run leaves behind: the calls made to \<open>update_status\<close>, the mappings that reached
  the status store, the files handed to \<open>process_stock_data\<close>, the batch summary file and
  the events published.
\<close>

record effects =
  status_calls :: "status_data list"
  status_store :: "status_data list"
  processed :: "string list"
  summary_file :: "batch_summary option"
  published :: "event list"

datatype outcome = Returned | Raised exn

text \<open>
  \<open>update_status\<close> (lines 78-84): the handler is \<open>except redis.RedisError\<close>, so an
  exception of another class would leave the function.
\<close>

definition update_status :: "env \<Rightarrow> status_data \<Rightarrow> effects \<Rightarrow> exn + effects" where
  "update_status e d st =
     (let st' = st\<lparr>status_calls := status_calls st @ [d]\<rparr>
      in case hset e d of
           None \<Rightarrow> Inr (st'\<lparr>status_store := status_store st' @ [d]\<rparr>)
         | Some (RedisError m) \<Rightarrow> Inr st'
         | Some other \<Rightarrow> Inl other)"

text \<open>
  \<open>process_stock_data\<close> (lines 173-278): the whole body is inside \<open>try\<close>, and
  \<open>except Exception\<close> turns whatever it raises into \<open>(False, {'error': str(e)})\<close>.
\<close>

definition process_stock_data :: "env \<Rightarrow> string \<Rightarrow> bool \<times> stats" where
  "process_stock_data e file_path =
     (case body e file_path of
        Inr processing_stats \<Rightarrow> (True, Stats processing_stats)
      | Inl ex \<Rightarrow> (False, ErrorStats (exn_str ex)))"

text \<open>The loop of lines 304-315: the entries of the files that succeeded, in order.\<close>

fun process_files :: "env \<Rightarrow> string list \<Rightarrow> file_entry list" where
  "process_files e [] = []"
| "process_files e (file_path # rest) =
     (case process_stock_data e file_path of
        (True, Stats s) \<Rightarrow>
          \<lparr>input_file = basename file_path, entry_file_type = file_type s, entry_stats = s\<rparr>
            # process_files e rest
      | _ \<Rightarrow> process_files e rest)"

fun sum_scores :: "real option list \<Rightarrow> real option" where
  "sum_scores [] = Some 0"
| "sum_scores (None # xs) = None"
| "sum_scores (Some v # xs) = (case sum_scores xs of None \<Rightarrow> None | Some s \<Rightarrow> Some (v + s))"

definition build_summary :: "file_entry list \<Rightarrow> batch_summary" where
  "build_summary pf =
     \<lparr>total_files_processed = length pf,
      files = pf,
      average_quality_score =
        (case sum_scores (map (\<lambda>f. quality_score (entry_stats f)) pf) of
           None \<Rightarrow> None
         | Some s \<Rightarrow> Some (round2 (s / real (length pf))))\<rparr>"

function show_nat :: "nat \<Rightarrow> string" where
  "show_nat n =
     (if n < 10 then [char_of (48 + n)] else show_nat (n div 10) @ [char_of (48 + n mod 10)])"
  by pat_completeness auto
termination
  by (relation "measure id") auto

definition plain_status :: "string \<Rightarrow> string \<Rightarrow> status_data" where
  "plain_status s m =
     \<lparr>status = s, message = m, files_processed = None, processed_files = None,
      status_average = None\<rparr>"

definition completed_status :: "file_entry list \<Rightarrow> batch_summary \<Rightarrow> status_data" where
  "completed_status pf summary =
     \<lparr>status = ''completed'',
      message = ''Successfully processed '' @ show_nat (length pf) @ '' files'',
      files_processed = Some (length pf),
      processed_files = Some (map input_file pf),
      status_average = Some (average_quality_score summary)\<rparr>"

text \<open>
  The handler of lines 359-375. After the status update it builds the event from
  \<open>f['output_file']\<close> and \<open>summary\<close>: the entries have no such key, and the two names are
  unbound when the exception came early, so the handler itself raises, and the second
  \<open>except\<close> clause of the same \<open>try\<close> does not cover it. The argument \<open>pf\<close> is \<open>None\<close>
  while \<open>processed_files\<close> is unbound.
\<close>

definition handler :: "env \<Rightarrow> exn \<Rightarrow> file_entry list option \<Rightarrow> effects \<Rightarrow> effects \<times> outcome" where
  "handler e ex pf st =
     (case update_status e (plain_status ''error'' (''Error during processing: '' @ exn_str ex)) st of
        Inl ex' \<Rightarrow> (st\<lparr>status_calls := status_calls st
                          @ [plain_status ''error'' (''Error during processing: '' @ exn_str ex)]\<rparr>,
                    Raised ex')
      | Inr st' \<Rightarrow>
          (st', Raised (case pf of
                          None \<Rightarrow> UnboundLocalError ''processed_files''
                        | Some [] \<Rightarrow> UnboundLocalError ''summary''
                        | Some (f # fs) \<Rightarrow> KeyError ''output_file'')))"

definition process_all_files :: "env \<Rightarrow> effects \<Rightarrow> effects \<times> outcome" where
  "process_all_files e st0 =
     (case update_status e (plain_status ''processing'' ''Starting stock data processing'') st0 of
        Inl ex \<Rightarrow> handler e ex None st0
      | Inr st1 \<Rightarrow>
         (let unprocessed_files = find_unprocessed_files (data_path e) (listing e)
          in if unprocessed_files = []
             then (case update_status e (plain_status ''idle'' ''No files to process'') st1 of
                     Inl ex \<Rightarrow> handler e ex None st1
                   | Inr st2 \<Rightarrow> (st2, Returned))
             else
               (let pf = process_files e unprocessed_files;
                    st2 = st1\<lparr>processed := processed st1 @ unprocessed_files\<rparr>
                in if pf \<noteq> []
                   then
                     (let summary = build_summary pf
                      in case write_summary e summary of
                           Some ex \<Rightarrow> handler e ex (Some pf) st2
                         | None \<Rightarrow>
                            (let st3 = st2\<lparr>summary_file := Some summary\<rparr>
                             in case update_status e (completed_status pf summary) st3 of
                                  Inl ex \<Rightarrow> handler e ex (Some pf) st3
                                | Inr st4 \<Rightarrow>
                                   (case publish e (DataProcessed (length pf) summary) of
                                      Some ex \<Rightarrow> handler e ex (Some pf) st4
                                    | None \<Rightarrow>
                                       (st4\<lparr>published := published st4
                                               @ [DataProcessed (length pf) summary]\<rparr>,
                                        Returned))))
                   else
                     (case update_status e
                             (plain_status ''error'' ''No files could be processed successfully'')
                             st2 of
                        Inl ex \<Rightarrow> handler e ex (Some pf) st2
                      | Inr st3 \<Rightarrow> (st3, Returned)))))"

definition redis_errors_only :: "(status_data \<Rightarrow> exn option) \<Rightarrow> bool" where
  "redis_errors_only h \<longleftrightarrow> (\<forall>d ex. h d = Some ex \<longrightarrow> (\<exists>m. ex = RedisError m))"

text \<open>The state of a run with the content of the status store left out.\<close>

definition without_status_store :: "effects \<Rightarrow> effects" where
  "without_status_store st = st\<lparr>status_store := []\<rparr>"

text \<open>
  A concrete run for the examples: three input files, a body that raises on the files
  listed in \<open>failing\<close>, and a status store that refuses every write.
\<close>

definition no_effects :: effects where
  "no_effects =
     \<lparr>status_calls = [], status_store = [], processed = [], summary_file = None, published = []\<rparr>"

definition example_stats :: processing_stats where
  "example_stats =
     \<lparr>original_rows = 3, file_type = ''quotes'', steps = [''market_analysis''], final_rows = 3,
      quality_score = Some 100\<rparr>"

definition example_env :: "string list \<Rightarrow> env" where
  "example_env failing =
     \<lparr>data_path = ''/shared/data'',
      listing = [''stock_quotes_T1.csv'', ''stock_quotes_T2.csv'', ''stock_historical_T1.csv''],
      body = (\<lambda>f. if f \<in> set failing then Inl (ZeroDivisionError ''float division by zero'')
                  else Inr example_stats),
      hset = (\<lambda>d. Some (RedisError ''Connection refused'')),
      write_summary = (\<lambda>s. None),
      publish = (\<lambda>ev. None)\<rparr>"


section \<open>Properties\<close>

subsection \<open>Work Discovery\<close>

text \<open>
  Claim C1. With the output \<open>processed_quotes_T1.csv\<close> present beside the inputs
  \<open>stock_quotes_T1.csv\<close> and \<open>stock_quotes_T2.csv\<close>, Work Discovery is claimed to return
  only the T2 input. The code returns both inputs: the name recorded for the output is
  \<open>quotes_T1\<close> (only \<open>processed_\<close> and \<open>.csv\<close> are removed), while the name computed for
  the input is \<open>T1\<close>, so the two never meet.
\<close>

theorem find_unprocessed_files_keeps_processed_input:
  "find_unprocessed_files ''/shared/data''
     [''processed_quotes_T1.csv'', ''stock_quotes_T1.csv'', ''stock_quotes_T2.csv'']
   = [''/shared/data/stock_quotes_T1.csv'', ''/shared/data/stock_quotes_T2.csv'']"
  by (simp add: find_unprocessed_files_def glob_def glob_match_def path_join_def
        processed_names_def input_base_name_def suffix_def)

text \<open>The output the pipeline itself writes for the T1 input is the file of the example.\<close>

lemma output_file_example:
  "output_file ''/shared/data'' ''/shared/data/stock_quotes_T1.csv''
     = ''/shared/data/processed_quotes_T1.csv''"
  by (simp add: output_file_def file_type_of_def path_join_def)

subsection \<open>Indicator Engine\<close>

lemma length_rolling_mean [simp]: "length (rolling_mean w xs) = length xs"
  by (simp add: rolling_mean_def)

lemma length_ewm_from [simp]: "length (ewm_from a st xs) = length xs"
  by (induction xs arbitrary: st) (simp_all add: Let_def)

lemma length_ewm_mean [simp]: "length (ewm_mean s xs) = length xs"
  by (simp add: ewm_mean_def split: list.splits)

lemma length_diff [simp]: "length (diff xs) = length xs"
  by (simp add: diff_def)

lemma length_series_sub [simp]: "length (series_sub xs ys) = min (length xs) (length ys)"
  by (simp add: series_sub_def)

lemma series_sub_nth:
  "i < length xs \<Longrightarrow> i < length ys \<Longrightarrow> series_sub xs ys ! i = opt_sub (xs ! i) (ys ! i)"
  by (simp add: series_sub_def)

lemma map_of_sort_values:
  "map_of (sort_values key df) name =
     (case map_of df key of None \<Rightarrow> map_of df name
      | Some k \<Rightarrow> map_option (take_rows (argsort k)) (map_of df name))"
  by (simp add: sort_values_def map_of_map split: option.splits)

lemma take_rows_numeric: "take_rows p c = NumCol ys \<Longrightarrow> \<exists>xs. c = NumCol xs"
  by (cases c) simp_all

lemma calculate_technical_indicators_numeric:
  assumes "map_of df ''close'' = Some (NumCol c)"
  shows "\<exists>df' close. calculate_technical_indicators df = Inr (df', Some (indicators_of close))
           \<and> map_of df' ''close'' = Some (NumCol close)"
proof (cases "map_of df ''date''")
  case None
  with assms show ?thesis by (simp add: calculate_technical_indicators_def)
next
  case (Some k)
  with assms have "map_of (sort_values ''date'' df) ''close''
      = Some (NumCol (map (\<lambda>i. c ! i) (argsort k)))"
    by (simp add: map_of_sort_values)
  with assms Some show ?thesis by (simp add: calculate_technical_indicators_def)
qed

lemma indicators_lengths:
  "length (sma_5 (indicators_of c)) = length c"
  "length (sma_20 (indicators_of c)) = length c"
  "length (ema_12 (indicators_of c)) = length c"
  "length (ema_26 (indicators_of c)) = length c"
  "length (macd (indicators_of c)) = length c"
  "length (macd_signal (indicators_of c)) = length c"
  "length (macd_histogram (indicators_of c)) = length c"
  "length (rsi (indicators_of c)) = length c"
  by (simp_all add: indicators_of_def Let_def)

lemma rolling_mean_nth:
  "i < length xs \<Longrightarrow> rolling_mean w xs ! i =
     (let obs = observations (window_at w i xs)
      in if w \<le> length obs then Some (sum_list obs / real (length obs)) else None)"
  by (simp add: rolling_mean_def)



lemma observations_map_Some [simp]: "observations (map Some vs) = vs"
  by (induction vs) simp_all


lemma window_at_full:
  "w \<le> Suc i \<Longrightarrow> window_at w i xs = take w (drop (Suc i - w) xs)"
  by (simp add: window_at_def drop_take)


lemma rolling_mean_full:
  assumes "i < length xs" "w \<le> Suc i" "0 < w"
    and "take w (drop (Suc i - w) xs) = map Some vs"
  shows "rolling_mean w xs ! i = Some (sum_list vs / real w)"
proof -
  have "length (take w (drop (Suc i - w) xs)) = w" using assms(1,2) by simp
  with assms(4) have "length vs = w" by (metis length_map)
  with assms show ?thesis by (simp add: rolling_mean_nth Let_def window_at_full)
qed


lemma observations_subset: "v \<in> set (observations ys) \<Longrightarrow> Some v \<in> set ys"
  by (induction ys rule: observations.induct) auto

lemma rolling_mean_nonneg:
  assumes "i < length xs" "rolling_mean w xs ! i = Some v"
    and nn: "\<And>u. Some u \<in> set xs \<Longrightarrow> 0 \<le> u"
  shows "0 \<le> v"
proof -
  let ?obs = "observations (window_at w i xs)"
  have "set (window_at w i xs) \<subseteq> set xs"
    unfolding window_at_def by (meson set_drop_subset set_take_subset subset_trans)
  then have "\<And>u. u \<in> set ?obs \<Longrightarrow> 0 \<le> u"
    using observations_subset nn by blast
  then have "0 \<le> sum_list ?obs" by (simp add: sum_list_nonneg)
  moreover from assms(1,2) have "v = sum_list ?obs / real (length ?obs)"
    by (simp add: rolling_mean_nth Let_def split: if_splits)
  ultimately show ?thesis by simp
qed

lemma gain_nonneg: "Some u \<in> set (map gain_of ds) \<Longrightarrow> 0 \<le> u"
proof -
  assume "Some u \<in> set (map gain_of ds)"
  then obtain d where "gain_of d = Some u" by auto
  then show ?thesis by (cases d) (auto split: if_splits)
qed

lemma loss_nonneg: "Some u \<in> set (map loss_of ds) \<Longrightarrow> 0 \<le> u"
proof -
  assume "Some u \<in> set (map loss_of ds)"
  then obtain d where "loss_of d = Some u" by auto
  then show ?thesis by (cases d) (auto split: if_splits)
qed

lemma rsi_of_null: "g = None \<or> l = None \<Longrightarrow> rsi_of g l = NaN"
  by (cases g; cases l) (auto simp: rsi_of_def float_sub_def)

lemma rsi_of_zero_loss:
  "0 \<le> g \<Longrightarrow> rsi_of (Some g) (Some 0) = (if g = 0 then NaN else Finite 100)"
  by (auto simp: rsi_of_def float_sub_def)

lemma rsi_of_pos_loss:
  assumes "0 \<le> g" "0 < l"
  shows "rsi_of (Some g) (Some l) = Finite (100 - 100 / (1 + g / l))"
proof -
  have "0 \<le> g / l" using assms by simp
  then have "1 + g / l \<noteq> 0" by linarith
  with assms show ?thesis by (simp add: rsi_of_def float_sub_def)
qed

lemma rsi_of_range:
  assumes "\<And>v. g = Some v \<Longrightarrow> 0 \<le> v" "\<And>v. l = Some v \<Longrightarrow> 0 \<le> v"
  shows "rsi_of g l = NaN \<or> (\<exists>v. rsi_of g l = Finite v \<and> 0 \<le> v \<and> v \<le> 100)"
proof (cases "g = None \<or> l = None")
  case True
  then show ?thesis by (simp add: rsi_of_null)
next
  case False
  then obtain a b where gl: "g = Some a" "l = Some b" by auto
  with assms have nn: "0 \<le> a" "0 \<le> b" by auto
  show ?thesis
  proof (cases "b = 0")
    case True
    with gl nn show ?thesis by (simp add: rsi_of_zero_loss)
  next
    case False
    with nn have pos: "0 < b" by simp
    have q: "0 \<le> a / b" using nn by simp
    then have "0 < 1 + a / b" by linarith
    moreover have "100 / (1 + a / b) \<le> 100 / 1"
      using q by (intro divide_left_mono) auto
    ultimately have "0 \<le> 100 - 100 / (1 + a / b) \<and> 100 - 100 / (1 + a / b) \<le> 100"
      by simp
    with gl nn pos show ?thesis by (simp add: rsi_of_pos_loss)
  qed
qed

lemma rsi_nth:
  "i < length c \<Longrightarrow>
   rsi (indicators_of c) ! i = rsi_of (gain (indicators_of c) ! i) (loss (indicators_of c) ! i)"
  by (simp add: indicators_of_def Let_def)

lemma gain_loss_nonneg:
  assumes "i < length c"
  shows "gain (indicators_of c) ! i = Some v \<Longrightarrow> 0 \<le> v"
    and "loss (indicators_of c) ! i = Some v \<Longrightarrow> 0 \<le> v"
proof -
  assume "gain (indicators_of c) ! i = Some v"
  then have "rolling_mean 14 (map gain_of (diff c)) ! i = Some v"
    by (simp add: indicators_of_def Let_def)
  then show "0 \<le> v"
    using rolling_mean_nonneg [of i "map gain_of (diff c)" 14 v] gain_nonneg assms by simp
next
  assume "loss (indicators_of c) ! i = Some v"
  then have "rolling_mean 14 (map loss_of (diff c)) ! i = Some v"
    by (simp add: indicators_of_def Let_def)
  then show "0 \<le> v"
    using rolling_mean_nonneg [of i "map loss_of (diff c)" 14 v] loss_nonneg assms by simp
qed

lemma horner_sum: "horner q vs = (\<Sum>k\<leftarrow>[0..<length vs]. q ^ k * vs ! k)"
proof (induction vs)
  case Nil show ?case by simp
next
  case (Cons v vs)
  have "(\<Sum>k\<leftarrow>[0..<length (v # vs)]. q ^ k * (v # vs) ! k)
        = (\<Sum>k\<leftarrow>0 # map Suc [0..<length vs]. q ^ k * (v # vs) ! k)"
    by (simp add: upt_conv_Cons map_Suc_upt del: upt_Suc)
  also have "\<dots> = v + (\<Sum>k\<leftarrow>[0..<length vs]. q * (q ^ k * vs ! k))"
    by (simp add: comp_def mult.assoc)
  also have "\<dots> = v + q * (\<Sum>k\<leftarrow>[0..<length vs]. q ^ k * vs ! k)"
    by (simp add: sum_list_const_mult)
  finally show ?case using Cons by simp
qed

lemma horner_history:
  assumes "i < length xs"
  shows "horner q (rev (map f (take (Suc i) xs))) = (\<Sum>k\<leftarrow>[0..<Suc i]. q ^ k * f (xs ! (i - k)))"
proof -
  have len: "length (rev (map f (take (Suc i) xs))) = Suc i" using assms by simp
  have "\<And>k. k < Suc i \<Longrightarrow> rev (map f (take (Suc i) xs)) ! k = f (xs ! (i - k))"
    using assms by (simp add: rev_nth)
  then have "map (\<lambda>k. q ^ k * rev (map f (take (Suc i) xs)) ! k) [0..<Suc i]
           = map (\<lambda>k. q ^ k * f (xs ! (i - k))) [0..<Suc i]"
    by (intro map_cong) auto
  then show ?thesis by (simp only: horner_sum len)
qed

lemma horner_weight_pos:
  assumes "0 < q" "\<not> list_all (\<lambda>x. x = None) h"
  shows "0 < horner q (rev (map cell_weight h))"
  using assms(2)
proof (induction h rule: rev_induct)
  case Nil then show ?case by simp
next
  case (snoc x h)
  have nn: "0 \<le> horner q (rev (map cell_weight h))"
  proof (cases "list_all (\<lambda>x. x = None) h")
    case True
    then have "map cell_weight h = map (\<lambda>_. 0) h"
      by (auto simp: list_all_iff)
    moreover have "horner q (replicate n 0) = 0" for n by (induction n) simp_all
    ultimately show ?thesis by (simp add: map_replicate_const)
  next
    case False with snoc.IH show ?thesis by simp
  qed
  show ?case
  proof (cases x)
    case None
    with snoc have "0 < horner q (rev (map cell_weight h))" by simp
    with None assms(1) show ?thesis by simp
  next
    case (Some v)
    with nn assms(1) show ?thesis by (simp add: add_pos_nonneg)
  qed
qed

lemma ewm_step_inv:
  assumes "0 < q" "q = 1 - \<alpha>"
  shows "ewm_step \<alpha> (ewm_inv q h) x = ewm_inv q (h @ [x])"
proof (cases "list_all (\<lambda>x. x = None) h")
  case True
  then have z: "map cell_weight h = replicate (length h) 0" "map cell_value h = replicate (length h) 0"
    by (auto simp: list_all_iff map_replicate_const [symmetric])
  have h0: "horner q (replicate n 0) = 0" for n by (induction n) simp_all
  from True show ?thesis
    by (cases x) (simp_all add: ewm_inv_def z h0)
next
  case False
  let ?N = "horner q (rev (map cell_value h))" and ?D = "horner q (rev (map cell_weight h))"
  have D: "0 < ?D" using horner_weight_pos [OF assms(1) False] .
  show ?thesis
  proof (cases x)
    case None
    with False D assms show ?thesis by (simp add: ewm_inv_def)
  next
    case (Some c)
    have "(?D * q * (?N / ?D) + c) / (?D * q + 1) = (c + q * ?N) / (1 + q * ?D)"
      using D by (simp add: algebra_simps)
    moreover have "?N / ?D = c \<Longrightarrow> c = (c + q * ?N) / (1 + q * ?D)"
    proof -
      assume "?N / ?D = c"
      then have "?N = c * ?D" using D by (simp add: field_simps)
      moreover have "1 + q * ?D > 0" using D assms(1) by (simp add: add_pos_pos)
      ultimately show ?thesis by (simp add: field_simps)
    qed
    ultimately show ?thesis using False Some assms(2)
      by (auto simp: ewm_inv_def Let_def)
  qed
qed

lemma ewm_from_nth:
  "k < length ys \<Longrightarrow> ewm_from \<alpha> st ys ! k = fst (foldl (ewm_step \<alpha>) st (take (Suc k) ys))"
proof (induction ys arbitrary: st k)
  case Nil then show ?case by simp
next
  case (Cons y ys)
  show ?case
  proof (cases k)
    case 0 then show ?thesis by (simp add: Let_def)
  next
    case (Suc j)
    with Cons show ?thesis by (simp add: Let_def)
  qed
qed

lemma foldl_ewm_inv:
  assumes "0 < q" "q = 1 - \<alpha>"
  shows "foldl (ewm_step \<alpha>) (ewm_inv q h) ys = ewm_inv q (h @ ys)"
proof (induction ys arbitrary: h)
  case Nil show ?case by simp
next
  case (Cons y ys)
  from Cons [of "h @ [y]"] show ?case by (simp add: ewm_step_inv [OF assms])
qed

lemma ewm_inv_single: "ewm_inv q [x] = (x, 1)"
  by (cases x) (simp_all add: ewm_inv_def)

lemma ewm_mean_nth:
  assumes "i < length xs" "0 < 1 - 2 / (s + 1)"
  shows "ewm_mean s xs ! i = fst (ewm_inv (1 - 2 / (s + 1)) (take (Suc i) xs))"
proof (cases xs)
  case Nil with assms show ?thesis by simp
next
  case (Cons x rest)
  show ?thesis
  proof (cases i)
    case 0 with Cons show ?thesis by (simp add: ewm_mean_def ewm_inv_single)
  next
    case (Suc k)
    with assms Cons have k: "k < length rest" by simp
    have "ewm_mean s xs ! i = fst (foldl (ewm_step (2 / (s + 1))) (x, 1) (take (Suc k) rest))"
      using Cons Suc k by (simp add: ewm_mean_def ewm_from_nth)
    also have "(x, 1) = ewm_inv (1 - 2 / (s + 1)) [x]" by (simp add: ewm_inv_single)
    also have "foldl (ewm_step (2 / (s + 1))) (ewm_inv (1 - 2 / (s + 1)) [x]) (take (Suc k) rest)
       = ewm_inv (1 - 2 / (s + 1)) ([x] @ take (Suc k) rest)"
      by (rule foldl_ewm_inv [OF assms(2)]) simp
    finally show ?thesis using Cons Suc by simp
  qed
qed

lemma ewm_mean_closed_form:
  assumes "i < length xs" "0 < 1 - 2 / (s + 1)"
  shows "ewm_mean s xs ! i = exp_weighted_mean (2 / (s + 1)) xs i"
  using assms
  by (simp add: ewm_mean_nth ewm_inv_def exp_weighted_mean_def horner_history del: upt_Suc)

lemma exp_weighted_mean_defined:
  assumes "0 < length xs" "xs ! 0 \<noteq> None"
  shows "exp_weighted_mean \<alpha> xs i \<noteq> None"
proof -
  from assms obtain x rest where "xs = x # rest" "x \<noteq> None" by (cases xs) auto
  then show ?thesis by (simp add: exp_weighted_mean_def)
qed

lemma calculate_technical_indicators_close:
  assumes "map_of df ''close'' = Some (NumCol c)"
  shows "\<exists>df' close. calculate_technical_indicators df = Inr (df', Some (indicators_of close))
           \<and> map_of df' ''close'' = Some (NumCol close)
           \<and> (map_of df ''date'' = None \<longrightarrow> df' = df \<and> close = c)"
proof (cases "map_of df ''date''")
  case None
  with assms show ?thesis by (simp add: calculate_technical_indicators_def)
next
  case (Some k)
  with assms have "map_of (sort_values ''date'' df) ''close''
      = Some (NumCol (map (\<lambda>i. c ! i) (argsort k)))"
    by (simp add: map_of_sort_values)
  with assms Some show ?thesis by (simp add: calculate_technical_indicators_def)
qed

lemma take_ewm_from: "take n (ewm_from \<alpha> st xs) = ewm_from \<alpha> st (take n xs)"
proof (induction xs arbitrary: n st)
  case Nil show ?case by simp
next
  case (Cons x xs)
  then show ?case by (cases n) (simp_all add: Let_def)
qed

lemma take_ewm_mean: "take n (ewm_mean s xs) = ewm_mean s (take n xs)"
proof (cases xs)
  case Nil then show ?thesis by (simp add: ewm_mean_def)
next
  case (Cons x rest)
  then show ?thesis by (cases n) (simp_all add: ewm_mean_def take_ewm_from)
qed

lemma take_series_sub: "take n (series_sub xs ys) = series_sub (take n xs) (take n ys)"
  by (simp add: series_sub_def take_map take_zip)

lemma ema_example_rows:
  "take 2 (ewm_mean 12 (map Some rising_21)) = [Some 1, Some (37 / 24)]"
  "take 2 (ewm_mean 26 (map Some rising_21)) = [Some 1, Some (79 / 52)]"
  by (simp_all add: take_ewm_mean take_map rising_21_def) (simp_all add: ewm_mean_def Let_def)

lemma macd_example_rows:
  "take 2 (macd (indicators_of (map Some rising_21))) = [Some 0, Some (7 / 312)]"
  "take 2 (macd_signal (indicators_of (map Some rising_21))) = [Some 0, Some (35 / 2808)]"
  "take 2 (macd_histogram (indicators_of (map Some rising_21))) = [Some 0, Some (7 / 702)]"
proof -
  have m: "take 2 (series_sub (ewm_mean 12 (map Some rising_21)) (ewm_mean 26 (map Some rising_21)))
           = [Some 0, Some (7 / 312)]"
    by (simp only: take_series_sub ema_example_rows) (simp add: series_sub_def)
  then show "take 2 (macd (indicators_of (map Some rising_21))) = [Some 0, Some (7 / 312)]"
    by (simp add: indicators_of_def Let_def)
  have s: "take 2 (ewm_mean 9 (series_sub (ewm_mean 12 (map Some rising_21))
                                           (ewm_mean 26 (map Some rising_21))))
           = [Some 0, Some (35 / 2808)]"
    by (simp only: take_ewm_mean m) (simp add: ewm_mean_def Let_def)
  then show "take 2 (macd_signal (indicators_of (map Some rising_21))) = [Some 0, Some (35 / 2808)]"
    by (simp add: indicators_of_def Let_def)
  from m s show "take 2 (macd_histogram (indicators_of (map Some rising_21)))
                 = [Some 0, Some (7 / 702)]"
    by (simp add: indicators_of_def Let_def) (simp only: take_series_sub m s, simp add: series_sub_def)
qed

lemma exp_weighted_mean_row1:
  "xs ! 0 = Some a \<Longrightarrow> xs ! 1 = Some b \<Longrightarrow> 1 < length xs \<Longrightarrow>
   exp_weighted_mean \<alpha> xs 1 = Some ((b + (1 - \<alpha>) * a) / (1 + (1 - \<alpha>)))"
proof -
  assume a: "xs ! 0 = Some a" and b: "xs ! 1 = Some b" and l: "1 < length xs"
  then obtain x y rest where xs: "xs = x # y # rest"
    by (cases xs; cases "tl xs") auto
  with a b show ?thesis by (simp add: exp_weighted_mean_def)
qed

text \<open>
  Claim C2. Whenever the frame has a numeric \<open>close\<close> column the function returns; when
  there is no date column to sort by, the frame and the close series come back as they
  went in. At every row of the result \<open>macd\<close> is \<open>ema_12\<close> minus \<open>ema_26\<close> and
  \<open>macd_histogram\<close> is \<open>macd\<close> minus \<open>macd_signal\<close>; the difference of two cells is null
  when one of them is.
\<close>

theorem macd_rows:
  assumes "map_of df ''close'' = Some (NumCol c)"
  shows "\<exists>df' close ind.
           calculate_technical_indicators df = Inr (df', Some ind)
         \<and> map_of df' ''close'' = Some (NumCol close)
         \<and> (map_of df ''date'' = None \<longrightarrow> df' = df \<and> close = c)
         \<and> length (macd ind) = length close
         \<and> length (macd_histogram ind) = length close
         \<and> (\<forall>i < length close.
               macd ind ! i = opt_sub (ema_12 ind ! i) (ema_26 ind ! i)
             \<and> macd_histogram ind ! i = opt_sub (macd ind ! i) (macd_signal ind ! i))"
proof -
  from calculate_technical_indicators_close [OF assms] obtain df' close where
    r: "calculate_technical_indicators df = Inr (df', Some (indicators_of close))"
    and c: "map_of df' ''close'' = Some (NumCol close)"
    and t: "(map_of df ''date'' = None \<longrightarrow> df' = df \<and> close = c)"
    by (elim exE conjE) (rule that)
  have p: "\<forall>i < length close.
          macd (indicators_of close) ! i
            = opt_sub (ema_12 (indicators_of close) ! i) (ema_26 (indicators_of close) ! i)
        \<and> macd_histogram (indicators_of close) ! i
            = opt_sub (macd (indicators_of close) ! i) (macd_signal (indicators_of close) ! i)"
    by (simp add: indicators_of_def Let_def series_sub_nth)
  show ?thesis
  proof (intro exI conjI)
    show "calculate_technical_indicators df = Inr (df', Some (indicators_of close))" by (rule r)
    show "map_of df' ''close'' = Some (NumCol close)" by (rule c)
    show "map_of df ''date'' = None \<longrightarrow> df' = df \<and> close = c" by (rule t)
    show "length (macd (indicators_of close)) = length close" by (rule indicators_lengths)
    show "length (macd_histogram (indicators_of close)) = length close"
      by (rule indicators_lengths)
    show "\<forall>i < length close.
          macd (indicators_of close) ! i
            = opt_sub (ema_12 (indicators_of close) ! i) (ema_26 (indicators_of close) ! i)
        \<and> macd_histogram (indicators_of close) ! i
            = opt_sub (macd (indicators_of close) ! i) (macd_signal (indicators_of close) ! i)"
      by (rule p)
  qed
qed

theorem macd_rows_witness:
  "\<exists>df' ind.
      calculate_technical_indicators [(''close'', NumCol (map Some rising_21))] = Inr (df', Some ind)
    \<and> map_of df' ''close'' = Some (NumCol (map Some rising_21))
    \<and> length (macd ind) = 21
    \<and> ema_12 ind ! 1 = Some (37 / 24)
    \<and> ema_26 ind ! 1 = Some (79 / 52)
    \<and> macd ind ! 1 = Some (7 / 312)
    \<and> macd_signal ind ! 1 = Some (35 / 2808)
    \<and> macd_histogram ind ! 1 = Some (7 / 702)"
  (is "\<exists>df' ind. calculate_technical_indicators ?df = _ \<and> _")
proof -
  have h: "map_of ?df ''close'' = Some (NumCol (map Some rising_21))" by simp
  from macd_rows [OF h] obtain df' close ind where
    r: "calculate_technical_indicators ?df = Inr (df', Some ind)"
    and c: "map_of df' ''close'' = Some (NumCol close)"
    and t: "(map_of ?df ''date'' = None \<longrightarrow> df' = ?df \<and> close = map Some rising_21)"
    and l: "length (macd ind) = length close"
    and p: "\<forall>i < length close.
               macd ind ! i = opt_sub (ema_12 ind ! i) (ema_26 ind ! i)
             \<and> macd_histogram ind ! i = opt_sub (macd ind ! i) (macd_signal ind ! i)"
    by (elim exE conjE) (rule that)
  from t have close: "close = map Some rising_21" by simp
  have n: "length rising_21 = 21" by (simp add: rising_21_def)
  from r have ind: "ind = indicators_of (map Some rising_21)"
    by (simp add: calculate_technical_indicators_def)
  have e12: "ema_12 ind ! 1 = Some (37 / 24)"
    using ema_example_rows(1) [THEN arg_cong, of "\<lambda>xs. xs ! 1"]
    by (simp add: ind indicators_of_def Let_def)
  have e26: "ema_26 ind ! 1 = Some (79 / 52)"
    using ema_example_rows(2) [THEN arg_cong, of "\<lambda>xs. xs ! 1"]
    by (simp add: ind indicators_of_def Let_def)
  have sg: "macd_signal ind ! 1 = Some (35 / 2808)"
    using macd_example_rows(2) [THEN arg_cong, of "\<lambda>xs. xs ! 1"] by (simp add: ind)
  from p [rule_format, of 1] close n e12 e26
  have m: "macd ind ! 1 = Some (7 / 312)" by simp
  from p [rule_format, of 1] close n m sg
  have hg: "macd_histogram ind ! 1 = Some (7 / 702)" by simp
  from r c close l n e12 e26 m sg hg show ?thesis by auto
qed



text \<open>
  Claim C4. Whenever the frame has a numeric \<open>close\<close> column the function returns (no
  exception, whatever the average loss is), and at every row \<open>rsi\<close> is either null (NaN)
  or a number between 0 and 100; at a row whose trailing-14 average loss is exactly zero
  it is 100 or null.
\<close>

theorem rsi_rows:
  assumes "map_of df ''close'' = Some (NumCol c)"
  shows "\<exists>df' close ind.
           calculate_technical_indicators df = Inr (df', Some ind)
         \<and> map_of df' ''close'' = Some (NumCol close)
         \<and> length (rsi ind) = length close
         \<and> (\<forall>i < length close.
               (rsi ind ! i = NaN \<or> (\<exists>v. rsi ind ! i = Finite v \<and> 0 \<le> v \<and> v \<le> 100))
             \<and> (loss ind ! i = Some 0 \<longrightarrow> rsi ind ! i = Finite 100 \<or> rsi ind ! i = NaN))"
proof -
  from calculate_technical_indicators_numeric [OF assms] obtain df' close where
    r: "calculate_technical_indicators df = Inr (df', Some (indicators_of close))"
    and c: "map_of df' ''close'' = Some (NumCol close)" by blast
  let ?ind = "indicators_of close"
  have "\<forall>i < length close.
               (rsi ?ind ! i = NaN \<or> (\<exists>v. rsi ?ind ! i = Finite v \<and> 0 \<le> v \<and> v \<le> 100))
             \<and> (loss ?ind ! i = Some 0 \<longrightarrow> rsi ?ind ! i = Finite 100 \<or> rsi ?ind ! i = NaN)"
  proof (intro allI impI conjI)
    fix i assume i: "i < length close"
    show "rsi ?ind ! i = NaN \<or> (\<exists>v. rsi ?ind ! i = Finite v \<and> 0 \<le> v \<and> v \<le> 100)"
      using rsi_of_range [of "gain ?ind ! i" "loss ?ind ! i"] gain_loss_nonneg [OF i] i
      by (simp add: rsi_nth)
  next
    fix i assume i: "i < length close" and z: "loss ?ind ! i = Some 0"
    show "rsi ?ind ! i = Finite 100 \<or> rsi ?ind ! i = NaN"
    proof (cases "gain ?ind ! i")
      case None
      with i z show ?thesis by (simp add: rsi_nth rsi_of_null)
    next
      case (Some g)
      with gain_loss_nonneg(1) [OF i] have "0 \<le> g" by simp
      with i z Some show ?thesis by (simp add: rsi_nth rsi_of_zero_loss)
    qed
  qed
  with r c show ?thesis by (auto simp: indicators_lengths)
qed

lemma diff_nth:
  "i < length xs \<Longrightarrow> diff xs ! i = (if i = 0 then None else opt_sub (xs ! i) (xs ! (i - 1)))"
  by (simp add: diff_def)

lemma rising_losses: "map loss_of (diff rising_close) = map Some (replicate 15 0)"
proof (rule nth_equalityI)
  show "length (map loss_of (diff rising_close)) = length (map Some (replicate 15 (0::real)))"
    by (simp add: rising_close_def)
next
  fix i assume "i < length (map loss_of (diff rising_close))"
  then have i: "i < 15" by (simp add: rising_close_def)
  then have "loss_of (diff rising_close ! i) = Some 0"
    by (cases i) (simp_all add: diff_nth rising_close_def)
  with i show "map loss_of (diff rising_close) ! i = map Some (replicate 15 (0::real)) ! i"
    by (simp add: rising_close_def)
qed

lemma rising_loss_zero: "loss (indicators_of rising_close) ! 14 = Some 0"
proof -
  have "rolling_mean 14 (map Some (replicate 15 (0::real))) ! 14
        = Some (sum_list (replicate 14 0) / real 14)"
    by (rule rolling_mean_full) simp_all
  moreover have "sum_list (replicate n (0::real)) = 0" for n by (induction n) simp_all
  ultimately show ?thesis by (simp add: indicators_of_def Let_def rising_losses)
qed

theorem rsi_rows_witness:
  "\<exists>df' ind. calculate_technical_indicators [(''close'', NumCol rising_close)] = Inr (df', Some ind)
      \<and> length (rsi ind) = 15
      \<and> loss ind ! 14 = Some 0
      \<and> (rsi ind ! 14 = Finite 100 \<or> rsi ind ! 14 = NaN)"
proof -
  have h: "map_of [(''close'', NumCol rising_close)] ''close'' = Some (NumCol rising_close)"
    by simp
  from rsi_rows [OF h] obtain df' close ind where
    r: "calculate_technical_indicators [(''close'', NumCol rising_close)] = Inr (df', Some ind)"
    and c: "map_of df' ''close'' = Some (NumCol close)"
    and l: "length (rsi ind) = length close"
    and p: "\<forall>i < length close.
               (rsi ind ! i = NaN \<or> (\<exists>v. rsi ind ! i = Finite v \<and> 0 \<le> v \<and> v \<le> 100))
             \<and> (loss ind ! i = Some 0 \<longrightarrow> rsi ind ! i = Finite 100 \<or> rsi ind ! i = NaN)"
    by blast
  from r have e: "df' = [(''close'', NumCol rising_close)]" "ind = indicators_of rising_close"
    by (simp_all add: calculate_technical_indicators_def)
  with c have close: "close = rising_close" by simp
  have n: "length rising_close = 15" by (simp add: rising_close_def)
  have z: "loss ind ! 14 = Some 0" using e rising_loss_zero by simp
  with p [rule_format, of 14] close n
  have "rsi ind ! 14 = Finite 100 \<or> rsi ind ! 14 = NaN" by simp
  with r l close n z show ?thesis by auto
qed

lemma ewm_from_nulls: "ewm_from \<alpha> (None, w) (replicate n None) = replicate n None"
  by (induction n) (simp_all add: Let_def)

lemma ewm_mean_nulls: "ewm_mean s (replicate n None) = replicate n None"
  by (cases n) (simp_all add: ewm_mean_def ewm_from_nulls)

lemma ema_example:
  "ewm_mean 12 [Some 1, Some 2, Some 4] = [Some 1, Some (37 / 24), Some (1083 / 433)]"
  by (simp add: ewm_mean_def Let_def)

text \<open>
  Claim C9. As stated the claim fails twice. A series that starts without an observation
  has null \<open>ema_12\<close> and \<open>ema_26\<close> at the very first row: here a numeric \<open>close\<close> column
  of 21 nulls beside 21 distinct volumes, which imputation leaves as it is. And on the
  series 1, 2, ..., 21 the columns do not hold the values of the recursion with
  smoothing factor \<open>\<alpha>\<close>: at the second row \<open>ema_12\<close> is 37/24 where the recursion gives
  15/13, and \<open>ema_26\<close> is 79/52 where it gives 29/27.
\<close>

theorem ema_differs_from_claim:
  "calculate_technical_indicators
     [(''volume'', NumCol (map Some rising_21)), (''close'', NumCol (replicate 21 None))]
     = Inr ([(''volume'', NumCol (map Some rising_21)), (''close'', NumCol (replicate 21 None))],
            Some (indicators_of (replicate 21 None)))
   \<and> ema_12 (indicators_of (replicate 21 None)) ! 0 = None
   \<and> ema_26 (indicators_of (replicate 21 None)) ! 0 = None
   \<and> calculate_technical_indicators [(''close'', NumCol (map Some rising_21))]
     = Inr ([(''close'', NumCol (map Some rising_21))], Some (indicators_of (map Some rising_21)))
   \<and> ema_12 (indicators_of (map Some rising_21)) ! 1 = Some (37 / 24)
   \<and> ema_by_recursion (2 / (12 + 1)) rising_21 ! 1 = 15 / 13
   \<and> ema_26 (indicators_of (map Some rising_21)) ! 1 = Some (79 / 52)
   \<and> ema_by_recursion (2 / (26 + 1)) rising_21 ! 1 = 29 / 27"
proof -
  have a: "ema_12 (indicators_of (map Some rising_21)) ! 1 = Some (37 / 24)"
    using ema_example_rows(1) [THEN arg_cong, of "\<lambda>xs. xs ! 1"]
    by (simp add: indicators_of_def Let_def)
  have b: "ema_26 (indicators_of (map Some rising_21)) ! 1 = Some (79 / 52)"
    using ema_example_rows(2) [THEN arg_cong, of "\<lambda>xs. xs ! 1"]
    by (simp add: indicators_of_def Let_def)
  have r: "ema_by_recursion (2 / (12 + 1)) rising_21 ! 1 = 15 / 13"
      "ema_by_recursion (2 / (26 + 1)) rising_21 ! 1 = 29 / 27"
    by (simp_all add: rising_21_def Let_def)
  have n: "ema_12 (indicators_of (replicate 21 None)) ! 0 = None"
      "ema_26 (indicators_of (replicate 21 None)) ! 0 = None"
    by (simp_all add: indicators_of_def Let_def ewm_mean_nulls)
  from a b r n show ?thesis by (simp add: calculate_technical_indicators_def)
qed

text \<open>
  Claim C9, amended. At every row \<open>ema_12\<close> and \<open>ema_26\<close> are the exponentially weighted
  mean of \<open>close\<close> over the whole history up to that row, with smoothing factor
  \<open>2 / (span + 1)\<close>, in the normalised form: weights \<open>(1 - \<alpha>) ^ k\<close> for the observation
  \<open>k\<close> rows back, divided by their sum. There is no warm-up window: when the first row
  has a close, both columns are non-null at every row. When there is no date column to
  sort by, the close series is the one that went in.
\<close>

theorem ema_rows:
  assumes "map_of df ''close'' = Some (NumCol c)"
  shows "\<exists>df' close ind.
           calculate_technical_indicators df = Inr (df', Some ind)
         \<and> map_of df' ''close'' = Some (NumCol close)
         \<and> (map_of df ''date'' = None \<longrightarrow> df' = df \<and> close = c)
         \<and> length (ema_12 ind) = length close
         \<and> length (ema_26 ind) = length close
         \<and> (\<forall>i < length close.
               ema_12 ind ! i = exp_weighted_mean (2 / (12 + 1)) close i
             \<and> ema_26 ind ! i = exp_weighted_mean (2 / (26 + 1)) close i
             \<and> (close ! 0 \<noteq> None \<longrightarrow> ema_12 ind ! i \<noteq> None \<and> ema_26 ind ! i \<noteq> None))"
proof -
  from calculate_technical_indicators_close [OF assms] obtain df' close where
    r: "calculate_technical_indicators df = Inr (df', Some (indicators_of close))"
    and c: "map_of df' ''close'' = Some (NumCol close)"
    and t: "(map_of df ''date'' = None \<longrightarrow> df' = df \<and> close = c)"
    by (elim exE conjE) (rule that)
  have e12: "ema_12 (indicators_of close) = ewm_mean 12 close"
    and e26: "ema_26 (indicators_of close) = ewm_mean 26 close"
    by (simp_all add: indicators_of_def Let_def)
  have "\<forall>i < length close.
               ewm_mean 12 close ! i = exp_weighted_mean (2 / (12 + 1)) close i
             \<and> ewm_mean 26 close ! i = exp_weighted_mean (2 / (26 + 1)) close i
             \<and> (close ! 0 \<noteq> None \<longrightarrow> ewm_mean 12 close ! i \<noteq> None \<and> ewm_mean 26 close ! i \<noteq> None)"
  proof (intro allI impI)
    fix i assume i: "i < length close"
    have a: "ewm_mean 12 close ! i = exp_weighted_mean (2 / (12 + 1)) close i"
      using ewm_mean_closed_form [of i close 12] i by simp
    have b: "ewm_mean 26 close ! i = exp_weighted_mean (2 / (26 + 1)) close i"
      using ewm_mean_closed_form [of i close 26] i by simp
    have "close ! 0 \<noteq> None \<longrightarrow> exp_weighted_mean \<alpha> close i \<noteq> None" for \<alpha>
    proof
      assume "close ! 0 \<noteq> None"
      moreover from i have "0 < length close" by (cases close) simp_all
      ultimately show "exp_weighted_mean \<alpha> close i \<noteq> None"
        by (rule exp_weighted_mean_defined [rotated])
    qed
    with a b show "ewm_mean 12 close ! i = exp_weighted_mean (2 / (12 + 1)) close i
             \<and> ewm_mean 26 close ! i = exp_weighted_mean (2 / (26 + 1)) close i
             \<and> (close ! 0 \<noteq> None \<longrightarrow> ewm_mean 12 close ! i \<noteq> None \<and> ewm_mean 26 close ! i \<noteq> None)"
      by simp
  qed
  then have p: "\<forall>i < length close.
               ema_12 (indicators_of close) ! i = exp_weighted_mean (2 / (12 + 1)) close i
             \<and> ema_26 (indicators_of close) ! i = exp_weighted_mean (2 / (26 + 1)) close i
             \<and> (close ! 0 \<noteq> None \<longrightarrow> ema_12 (indicators_of close) ! i \<noteq> None
                                   \<and> ema_26 (indicators_of close) ! i \<noteq> None)"
    by (simp only: e12 e26)
  show ?thesis
  proof (intro exI conjI)
    show "calculate_technical_indicators df = Inr (df', Some (indicators_of close))" by (rule r)
    show "map_of df' ''close'' = Some (NumCol close)" by (rule c)
    show "map_of df ''date'' = None \<longrightarrow> df' = df \<and> close = c" by (rule t)
    show "length (ema_12 (indicators_of close)) = length close" by (rule indicators_lengths)
    show "length (ema_26 (indicators_of close)) = length close" by (rule indicators_lengths)
    show "\<forall>i < length close.
               ema_12 (indicators_of close) ! i = exp_weighted_mean (2 / (12 + 1)) close i
             \<and> ema_26 (indicators_of close) ! i = exp_weighted_mean (2 / (26 + 1)) close i
             \<and> (close ! 0 \<noteq> None \<longrightarrow> ema_12 (indicators_of close) ! i \<noteq> None
                                   \<and> ema_26 (indicators_of close) ! i \<noteq> None)"
      by (rule p)
  qed
qed

theorem ema_rows_witness:
  "\<exists>df' ind.
      calculate_technical_indicators [(''close'', NumCol (map Some rising_21))] = Inr (df', Some ind)
    \<and> map_of df' ''close'' = Some (NumCol (map Some rising_21))
    \<and> length (ema_12 ind) = 21
    \<and> length (ema_26 ind) = 21
    \<and> ema_12 ind ! 0 \<noteq> None
    \<and> ema_12 ind ! 1 = Some (37 / 24)
    \<and> ema_26 ind ! 1 = Some (79 / 52)
    \<and> ema_12 ind ! 20 \<noteq> None
    \<and> ema_26 ind ! 20 \<noteq> None"
  (is "\<exists>df' ind. calculate_technical_indicators ?df = _ \<and> _")
proof -
  have h: "map_of ?df ''close'' = Some (NumCol (map Some rising_21))" by simp
  from ema_rows [OF h] obtain df' close ind where
    r: "calculate_technical_indicators ?df = Inr (df', Some ind)"
    and c: "map_of df' ''close'' = Some (NumCol close)"
    and t: "(map_of ?df ''date'' = None \<longrightarrow> df' = ?df \<and> close = map Some rising_21)"
    and l: "length (ema_12 ind) = length close" "length (ema_26 ind) = length close"
    and p: "\<forall>i < length close.
               ema_12 ind ! i = exp_weighted_mean (2 / (12 + 1)) close i
             \<and> ema_26 ind ! i = exp_weighted_mean (2 / (26 + 1)) close i
             \<and> (close ! 0 \<noteq> None \<longrightarrow> ema_12 ind ! i \<noteq> None \<and> ema_26 ind ! i \<noteq> None)"
    by (elim exE conjE) (rule that)
  from t have close: "close = map Some rising_21" by simp
  have n: "length rising_21 = 21" by (simp add: rising_21_def)
  have c0: "close ! 0 = Some 1" "close ! 1 = Some 2" by (simp_all add: close rising_21_def)
  have lt: "0 < length close" "1 < length close" "20 < length close"
    using close n by simp_all
  have nn: "close ! 0 \<noteq> None" using c0 by simp
  from p lt(1) nn have 0: "ema_12 ind ! 0 \<noteq> None" by blast
  from p lt(3) nn have 20: "ema_12 ind ! 20 \<noteq> None" "ema_26 ind ! 20 \<noteq> None" by blast+
  from p lt(2)
  have "ema_12 ind ! 1 = exp_weighted_mean (2 / (12 + 1)) close 1"
    and "ema_26 ind ! 1 = exp_weighted_mean (2 / (26 + 1)) close 1" by blast+
  then have 1: "ema_12 ind ! 1 = Some (37 / 24)" "ema_26 ind ! 1 = Some (79 / 52)"
    using exp_weighted_mean_row1 [OF c0 lt(2)] by simp_all
  from r c close l n 0 1 20 show ?thesis by auto
qed


subsection \<open>Record Normalizer\<close>

lemma length_ffill_from [simp]: "length (ffill_from l xs) = length xs"
  by (induction l xs rule: ffill_from.induct) simp_all

lemma length_bfill [simp]: "length (bfill xs) = length xs"
  by (induction xs rule: bfill.induct) (auto split: list.splits)

lemma ffill_from_not_Nil: "xs \<noteq> [] \<Longrightarrow> ffill_from l xs \<noteq> []"
  by (cases xs; cases "hd xs") auto

lemma length_fillna [simp]: "length (fillna v xs) = length xs"
  by (simp add: fillna_def)

lemma ffill_from_no_null: "None \<notin> set xs \<Longrightarrow> ffill_from l xs = xs"
  by (induction l xs rule: ffill_from.induct) simp_all

lemma bfill_no_null: "None \<notin> set xs \<Longrightarrow> bfill xs = xs"
  by (induction xs rule: bfill.induct) simp_all

lemma fillna_no_null: "None \<notin> set xs \<Longrightarrow> fillna v xs = xs"
  by (induction xs) (auto simp: fillna_def split: option.splits)

lemma ffill_from_all_null: "\<forall>x\<in>set xs. x = None \<Longrightarrow> ffill_from None xs = xs"
  by (induction xs) auto

lemma bfill_all_null: "\<forall>x\<in>set xs. x = None \<Longrightarrow> bfill xs = xs"
proof (induction xs)
  case Nil show ?case by simp
next
  case (Cons x xs)
  then have "x = None" "bfill xs = xs" by auto
  then show ?case using Cons.prems by (cases xs) auto
qed

lemma bfill_null_trailing: "None \<in> set (bfill xs) \<Longrightarrow> xs \<noteq> [] \<and> last xs = None"
proof (induction xs rule: bfill.induct)
  case 1 then show ?case by simp
next
  case (2 v xs)
  then show ?case by auto
next
  case (3 xs)
  show ?case
  proof (cases "bfill xs")
    case Nil
    then have "xs = []" using length_bfill [of xs] by simp
    then show ?thesis by simp
  next
    case (Cons y ys)
    with 3 have "None \<in> set (bfill xs)" by auto
    with 3 have "xs \<noteq> [] \<and> last xs = None" by simp
    then show ?thesis by simp
  qed
qed

lemma ffill_from_last_null:
  "xs \<noteq> [] \<Longrightarrow> last (ffill_from l xs) = None \<Longrightarrow> l = None \<and> (\<forall>x\<in>set xs. x = None)"
proof (induction l xs rule: ffill_from.induct)
  case (1 l) then show ?case by simp
next
  case (2 l xs)
  show ?case
  proof (cases "xs = []")
    case True with 2 show ?thesis by simp
  next
    case False
    with 2 show ?thesis by (auto simp: ffill_from_not_Nil)
  qed
next
  case (3 l v xs)
  show ?case
  proof (cases "xs = []")
    case True with 3 show ?thesis by simp
  next
    case False
    with 3 show ?thesis by (auto simp: ffill_from_not_Nil)
  qed
qed

lemma fill_price_complete:
  assumes "Some v \<in> set xs"
  shows "None \<notin> set (bfill (ffill xs))"
proof
  assume "None \<in> set (bfill (ffill xs))"
  then have "ffill xs \<noteq> [] \<and> last (ffill xs) = None" by (rule bfill_null_trailing)
  moreover from assms have "xs \<noteq> []" by auto
  ultimately have "\<forall>x\<in>set xs. x = None"
    using ffill_from_last_null [of xs None] by (simp add: ffill_def)
  with assms show False by auto
qed

lemma fill_price_all_null: "\<forall>x\<in>set xs. x = None \<Longrightarrow> bfill (ffill xs) = xs"
  by (simp add: ffill_def ffill_from_all_null bfill_all_null)

lemma observations_Nil_iff: "observations xs = [] \<longleftrightarrow> (\<forall>x\<in>set xs. x = None)"
  by (induction xs rule: observations.induct) auto

lemma median_None_iff: "median xs = None \<longleftrightarrow> (\<forall>x\<in>set xs. x = None)"
proof -
  have "median xs = None \<longleftrightarrow> length (sort (observations xs)) = 0"
    by (simp add: median_def Let_def del: length_0_conv length_sort)
  then show ?thesis by (simp add: observations_Nil_iff)
qed

lemma fill_median_complete:
  assumes "Some v \<in> set xs"
  shows "None \<notin> set (fillna (median xs) xs)"
proof -
  from assms have "median xs \<noteq> None" by (auto simp: median_None_iff)
  then obtain m where "median xs = Some m" by auto
  then show ?thesis by (auto simp: fillna_def split: option.splits)
qed

lemma fill_median_all_null: "\<forall>x\<in>set xs. x = None \<Longrightarrow> fillna (median xs) xs = xs"
proof -
  assume a: "\<forall>x\<in>set xs. x = None"
  then have "median xs = None" by (simp add: median_None_iff)
  have "fillna None xs = xs"
    unfolding fillna_def by (rule map_idI) (simp split: option.splits)
  with \<open>median xs = None\<close> show ?thesis by simp
qed

lemma col_nulls_zero: "col_nulls (NumCol xs) = 0 \<longleftrightarrow> None \<notin> set xs"
  by (induction xs) auto

lemma numeric_nulls_zero:
  assumes "numeric_nulls df = 0" "(name, NumCol xs) \<in> set df"
  shows "None \<notin> set xs"
proof -
  from assms(2) have "(name, NumCol xs) \<in> set (filter (\<lambda>(name, c). is_numeric c) df)" by simp
  with assms(1) have "col_nulls (NumCol xs) = 0"
    unfolding numeric_nulls_def by (fastforce simp: sum_list_eq_0_iff)
  then show ?thesis using col_nulls_zero by blast
qed

lemma impute_column_identity:
  "None \<notin> set xs \<Longrightarrow> impute_column name (NumCol xs) = NumCol xs"
  by (simp add: ffill_def ffill_from_no_null bfill_no_null fillna_no_null)

lemma handle_missing_values_nth:
  assumes "k < length df" "df ! k = (name, c)"
  shows "fst (handle_missing_values df) ! k = (name, impute_column name c)"
proof (cases "numeric_nulls df > 0")
  case True
  with assms show ?thesis by (simp add: handle_missing_values_def Let_def)
next
  case False
  then have z: "numeric_nulls df = 0" by simp
  have "impute_column name c = c"
  proof (cases c)
    case (NumCol xs)
    with assms have "(name, NumCol xs) \<in> set df" by (metis nth_mem)
    with z have "None \<notin> set xs" by (rule numeric_nulls_zero)
    with NumCol show ?thesis using impute_column_identity by blast
  next
    case (StrCol xs) then show ?thesis by simp
  qed
  with z assms show ?thesis by (simp add: handle_missing_values_def Let_def)
qed

lemma length_handle_missing_values: "length (fst (handle_missing_values df)) = length df"
  by (simp add: handle_missing_values_def Let_def)

text \<open>
  Claim C6. Every numeric column comes out of the stage filled by forward-fill then
  back-fill when it is price-like, and with its median otherwise (also \<open>volume\<close>);
  a column with at least one value has no null left, a column that is entirely null
  stays as it is, and columns that are not numeric are untouched. The stage is a total
  function: the all-null column is no error. The two examples of the specification
  evaluate as stated.
\<close>

theorem imputation_fills_numeric_columns:
  "length (fst (handle_missing_values df)) = length df
   \<and> (\<forall>k < length df. \<forall>name xs. df ! k = (name, NumCol xs) \<longrightarrow>
        (\<exists>ys. fst (handle_missing_values df) ! k = (name, NumCol ys)
            \<and> length ys = length xs
            \<and> ys = (if name \<in> set price_columns then bfill (ffill xs) else fillna (median xs) xs)
            \<and> ((\<exists>v. Some v \<in> set xs) \<longrightarrow> None \<notin> set ys)
            \<and> ((\<forall>x \<in> set xs. x = None) \<longrightarrow> ys = xs)))
   \<and> (\<forall>k < length df. \<forall>name xs. df ! k = (name, StrCol xs) \<longrightarrow>
        fst (handle_missing_values df) ! k = (name, StrCol xs))
   \<and> handle_missing_values [(''volume'', NumCol [Some 10, None, Some 30])]
       = ([(''volume'', NumCol [Some 10, Some 20, Some 30])], Some (1, 0))
   \<and> handle_missing_values [(''close'', NumCol [None, Some 5, None, Some 7])]
       = ([(''close'', NumCol [Some 5, Some 5, Some 5, Some 7])], Some (2, 0))"
proof (intro conjI allI impI)
  show "length (fst (handle_missing_values df)) = length df"
    by (rule length_handle_missing_values)
next
  fix k name xs assume k: "k < length df" and d: "df ! k = (name, NumCol xs)"
  let ?ys = "if name \<in> set price_columns then bfill (ffill xs) else fillna (median xs) xs"
  have 1: "fst (handle_missing_values df) ! k = (name, NumCol ?ys)"
    using handle_missing_values_nth [OF k d] by simp
  have 2: "length ?ys = length xs" by (simp add: ffill_def)
  have 3: "(\<exists>v. Some v \<in> set xs) \<longrightarrow> None \<notin> set ?ys"
  proof
    assume "\<exists>v. Some v \<in> set xs"
    then obtain v where v: "Some v \<in> set xs" ..
    show "None \<notin> set ?ys"
      using fill_price_complete [OF v] fill_median_complete [OF v] by simp
  qed
  have 4: "(\<forall>x \<in> set xs. x = None) \<longrightarrow> ?ys = xs"
    by (simp add: fill_price_all_null fill_median_all_null)
  from 1 2 3 4
  show "\<exists>ys. fst (handle_missing_values df) ! k = (name, NumCol ys)
            \<and> length ys = length xs
            \<and> ys = (if name \<in> set price_columns then bfill (ffill xs) else fillna (median xs) xs)
            \<and> ((\<exists>v. Some v \<in> set xs) \<longrightarrow> None \<notin> set ys)
            \<and> ((\<forall>x \<in> set xs. x = None) \<longrightarrow> ys = xs)"
    by blast
next
  fix k name xs assume k: "k < length df" and d: "df ! k = (name, StrCol xs)"
  show "fst (handle_missing_values df) ! k = (name, StrCol xs)"
    using handle_missing_values_nth [OF k d] by simp
next
  show "handle_missing_values [(''volume'', NumCol [Some 10, None, Some 30])]
       = ([(''volume'', NumCol [Some 10, Some 20, Some 30])], Some (1, 0))"
    by (simp add: handle_missing_values_def numeric_nulls_def price_columns_def
          fillna_def median_def Let_def)
next
  show "handle_missing_values [(''close'', NumCol [None, Some 5, None, Some 7])]
       = ([(''close'', NumCol [Some 5, Some 5, Some 5, Some 7])], Some (2, 0))"
    by (simp add: handle_missing_values_def numeric_nulls_def price_columns_def
          ffill_def Let_def)
qed

theorem imputation_witness:
  "fst (handle_missing_values
          [(''symbol'', StrCol [Some ''AAPL'', Some ''AAPL'', Some ''AAPL'']),
           (''open'', NumCol [None, Some 4, None]),
           (''volume'', NumCol [Some 7, None, Some 1]),
           (''dividend'', NumCol [None, None, None])]) ! 1
     = (''open'', NumCol [Some 4, Some 4, Some 4])
   \<and> fst (handle_missing_values
          [(''symbol'', StrCol [Some ''AAPL'', Some ''AAPL'', Some ''AAPL'']),
           (''open'', NumCol [None, Some 4, None]),
           (''volume'', NumCol [Some 7, None, Some 1]),
           (''dividend'', NumCol [None, None, None])]) ! 2
     = (''volume'', NumCol [Some 7, Some 4, Some 1])
   \<and> fst (handle_missing_values
          [(''symbol'', StrCol [Some ''AAPL'', Some ''AAPL'', Some ''AAPL'']),
           (''open'', NumCol [None, Some 4, None]),
           (''volume'', NumCol [Some 7, None, Some 1]),
           (''dividend'', NumCol [None, None, None])]) ! 3
     = (''dividend'', NumCol [None, None, None])"
  (is "fst (handle_missing_values ?df) ! 1 = _ \<and> _")
proof -
  note t = imputation_fills_numeric_columns [of ?df, THEN conjunct2, THEN conjunct1, rule_format]
  have "\<exists>ys. fst (handle_missing_values ?df) ! 1 = (''open'', NumCol ys)
          \<and> ys = bfill (ffill [None, Some 4, None])"
    using t [of 1 "''open''" "[None, Some 4, None]"] by (simp add: price_columns_def)
  moreover have "\<exists>ys. fst (handle_missing_values ?df) ! 2 = (''volume'', NumCol ys)
          \<and> ys = fillna (median [Some 7, None, Some 1]) [Some 7, None, Some 1]"
    using t [of 2 "''volume''" "[Some 7, None, Some 1]"] by (simp add: price_columns_def)
  moreover have "\<exists>ys. fst (handle_missing_values ?df) ! 3 = (''dividend'', NumCol ys)
          \<and> ys = [None, None, None]"
    using t [of 3 "''dividend''" "[None, None, None]"] by (simp add: price_columns_def)
  ultimately show ?thesis
    by (simp add: ffill_def fillna_def median_def Let_def)
qed

subsection \<open>Quote Analyzer\<close>

lemma analyze_rows_ok:
  "(\<And>i. i \<in> set ixs \<Longrightarrow> f i = Inr (g i)) \<Longrightarrow> analyze_rows f ixs = Inr (map g ixs)"
  by (induction ixs) simp_all

lemma sentiment_of_finite:
  "sentiment_of (Finite p) =
     (if 2 < p then ''Strong Bullish'' else if 0 < p then ''Bullish''
      else if - 2 < p then ''Bearish'' else ''Strong Bearish'')"
  by (simp add: sentiment_of_def)

lemma analyze_row_numeric:
  assumes "map_of df ''previous_close'' = Some (NumCol pcs)"
    and "i < length cps" "i < length pcs"
    and "cps ! i \<noteq> None \<longrightarrow> pcs ! i \<noteq> Some 0"
  shows "analyze_row df (NumCol cps) i = Inr (row_result cps pcs i)"
proof (cases "cps ! i")
  case None
  with assms show ?thesis by (simp add: analyze_row_def row_result_def)
next
  case a: (Some a)
  show ?thesis
  proof (cases "pcs ! i")
    case None
    with a assms show ?thesis by (simp add: analyze_row_def row_result_def)
  next
    case (Some b)
    with a assms have "b \<noteq> 0" by auto
    with a Some assms show ?thesis by (simp add: analyze_row_def row_result_def Let_def)
  qed
qed

text \<open>
  Claim C5. As stated (every row whose two prices are non-null) the claim fails on a row
  whose \<open>previous_close\<close> is zero: in a quote file, which has the text column \<open>symbol\<close>,
  the division raises and the file is not processed at all.
\<close>

theorem quote_zero_previous_close_raises:
  "quote_analysis [(''symbol'', StrCol [Some ''AAPL'']),
                   (''current_price'', NumCol [Some 150]),
                   (''previous_close'', NumCol [Some 0])]
     = Inl (ZeroDivisionError ''float division by zero'')"
  by (simp add: quote_analysis_def analyze_row_def all_numeric_def)


text \<open>
  Claim C5, amended. Let \<open>current_price\<close> and \<open>previous_close\<close> be numeric columns, and
  let no row with a current price have a zero \<open>previous_close\<close>. Then the stage returns,
  and for every row where both prices are non-null it writes
  \<open>(current_price - previous_close) / previous_close * 100\<close> and the sentiment of the
  four intervals; the other rows are left alone.
\<close>

theorem quote_rows:
  assumes cp: "map_of df ''current_price'' = Some (NumCol cps)"
    and pc: "map_of df ''previous_close'' = Some (NumCol pcs)"
    and len: "length cps = nrows df" "length pcs = nrows df"
    and nz: "\<forall>i < nrows df. cps ! i \<noteq> None \<longrightarrow> pcs ! i \<noteq> Some 0"
  shows "\<exists>rows. quote_analysis df = Inr (Some rows) \<and> length rows = nrows df
           \<and> (\<forall>i < nrows df. \<forall>a b. cps ! i = Some a \<and> pcs ! i = Some b \<longrightarrow>
                (\<exists>s. rows ! i = Some (Finite ((a - b) / b * 100), s)
                    \<and> (2 < (a - b) / b * 100 \<longrightarrow> s = ''Strong Bullish'')
                    \<and> (0 < (a - b) / b * 100 \<and> (a - b) / b * 100 \<le> 2 \<longrightarrow> s = ''Bullish'')
                    \<and> (- 2 < (a - b) / b * 100 \<and> (a - b) / b * 100 \<le> 0 \<longrightarrow> s = ''Bearish'')
                    \<and> ((a - b) / b * 100 \<le> - 2 \<longrightarrow> s = ''Strong Bearish'')))
           \<and> (\<forall>i < nrows df. cps ! i = None \<or> pcs ! i = None \<longrightarrow> rows ! i = None)"
proof -
  let ?rows = "map (row_result cps pcs) [0..<nrows df]"
  have "analyze_rows (analyze_row df (NumCol cps)) [0..<nrows df] = Inr ?rows"
  proof (rule analyze_rows_ok)
    fix i assume "i \<in> set [0..<nrows df]"
    then have i: "i < nrows df" by simp
    with len nz show "analyze_row df (NumCol cps) i = Inr (row_result cps pcs i)"
      by (intro analyze_row_numeric [OF pc]) simp_all
  qed
  with cp have q: "quote_analysis df = Inr (Some ?rows)" by (simp add: quote_analysis_def)
  have l: "length ?rows = nrows df" by simp
  have v: "\<forall>i < nrows df. \<forall>a b. cps ! i = Some a \<and> pcs ! i = Some b \<longrightarrow>
                (\<exists>s. ?rows ! i = Some (Finite ((a - b) / b * 100), s)
                    \<and> (2 < (a - b) / b * 100 \<longrightarrow> s = ''Strong Bullish'')
                    \<and> (0 < (a - b) / b * 100 \<and> (a - b) / b * 100 \<le> 2 \<longrightarrow> s = ''Bullish'')
                    \<and> (- 2 < (a - b) / b * 100 \<and> (a - b) / b * 100 \<le> 0 \<longrightarrow> s = ''Bearish'')
                    \<and> ((a - b) / b * 100 \<le> - 2 \<longrightarrow> s = ''Strong Bearish''))"
    by (simp add: row_result_def sentiment_of_finite)
  have n: "\<forall>i < nrows df. cps ! i = None \<or> pcs ! i = None \<longrightarrow> ?rows ! i = None"
    by (auto simp: row_result_def split: option.splits)
  from q l v n show ?thesis by blast
qed

theorem quote_rows_witness:
  "\<exists>rows. quote_analysis [(''symbol'', StrCol [Some ''AAPL'', Some ''MSFT'', Some ''TSLA'', Some ''NVDA'']),
                            (''current_price'', NumCol [Some 102, Some 100, Some 98, Some 103]),
                            (''previous_close'', NumCol [Some 100, Some 100, Some 100, Some 100])]
             = Inr (Some rows)
         \<and> rows ! 0 = Some (Finite 2, ''Bullish'')
         \<and> rows ! 1 = Some (Finite 0, ''Bearish'')
         \<and> rows ! 2 = Some (Finite (- 2), ''Strong Bearish'')
         \<and> rows ! 3 = Some (Finite 3, ''Strong Bullish'')"
  (is "\<exists>rows. quote_analysis ?df = _ \<and> _")
proof -
  let ?cps = "[Some 102, Some 100, Some 98, Some (103 :: real)]"
  let ?pcs = "[Some 100, Some 100, Some 100, Some (100 :: real)]"
  have nz: "\<forall>i < nrows ?df. ?cps ! i \<noteq> None \<longrightarrow> ?pcs ! i \<noteq> Some 0"
    by (simp add: nth_Cons split: nat.splits)
  from quote_rows [of ?df ?cps ?pcs, OF _ _ _ _ nz]
  obtain rows where q: "quote_analysis ?df = Inr (Some rows)"
    and v: "\<forall>i < nrows ?df. \<forall>a b. ?cps ! i = Some a \<and> ?pcs ! i = Some b \<longrightarrow>
                (\<exists>s. rows ! i = Some (Finite ((a - b) / b * 100), s)
                    \<and> (2 < (a - b) / b * 100 \<longrightarrow> s = ''Strong Bullish'')
                    \<and> (0 < (a - b) / b * 100 \<and> (a - b) / b * 100 \<le> 2 \<longrightarrow> s = ''Bullish'')
                    \<and> (- 2 < (a - b) / b * 100 \<and> (a - b) / b * 100 \<le> 0 \<longrightarrow> s = ''Bearish'')
                    \<and> ((a - b) / b * 100 \<le> - 2 \<longrightarrow> s = ''Strong Bearish''))"
    by auto
  from v [rule_format, of 0 102 100] have "rows ! 0 = Some (Finite 2, ''Bullish'')" by simp
  moreover from v [rule_format, of 1 100 100] have "rows ! 1 = Some (Finite 0, ''Bearish'')" by simp
  moreover from v [rule_format, of 2 98 100] have "rows ! 2 = Some (Finite (- 2), ''Strong Bearish'')" by simp
  moreover from v [rule_format, of 3 103 100] have "rows ! 3 = Some (Finite 3, ''Strong Bullish'')" by simp
  ultimately show ?thesis using q by blast
qed

subsection \<open>Pipeline Orchestrator\<close>

lemma update_status_redis:
  assumes "redis_errors_only (hset e)"
  shows "update_status e d st
         = Inr (st\<lparr>status_calls := status_calls st @ [d],
                   status_store := status_store st @ (if hset e d = None then [d] else [])\<rparr>)"
proof (cases "hset e d")
  case None
  then show ?thesis by (simp add: update_status_def Let_def)
next
  case (Some ex)
  with assms obtain m where "ex = RedisError m" unfolding redis_errors_only_def by blast
  with Some show ?thesis by (simp add: update_status_def Let_def)
qed

lemma process_stock_data_failure:
  "body e f = Inl ex \<Longrightarrow> process_stock_data e f = (False, ErrorStats (exn_str ex))"
  by (simp add: process_stock_data_def)

lemma process_files_inputs:
  "map input_file (process_files e fs) = map basename (filter (\<lambda>f. \<not> isl (body e f)) fs)"
  by (induction fs) (auto simp: process_stock_data_def split: sum.splits)

lemma process_files_Nil_iff: "process_files e fs = [] \<longleftrightarrow> (\<forall>f \<in> set fs. isl (body e f))"
  by (induction fs) (auto simp: process_stock_data_def split: sum.splits)

lemma process_all_files_success:
  assumes r: "redis_errors_only (hset e)"
    and fs: "find_unprocessed_files (data_path e) (listing e) = fs" "fs \<noteq> []"
    and ok: "process_files e fs \<noteq> []"
    and w: "write_summary e (build_summary (process_files e fs)) = None"
    and p: "publish e (DataProcessed (length (process_files e fs)) (build_summary (process_files e fs))) = None"
  shows "snd (process_all_files e st0) = Returned"
    and "summary_file (fst (process_all_files e st0)) = Some (build_summary (process_files e fs))"
    and "published (fst (process_all_files e st0))
         = published st0 @ [DataProcessed (length (process_files e fs)) (build_summary (process_files e fs))]"
    and "processed (fst (process_all_files e st0)) = processed st0 @ fs"
  using fs ok w p
  by (simp_all add: process_all_files_def update_status_redis [OF r] Let_def)

lemma process_all_files_no_success:
  assumes r: "redis_errors_only (hset e)"
    and fs: "find_unprocessed_files (data_path e) (listing e) = fs" "fs \<noteq> []"
    and ko: "process_files e fs = []"
  shows "snd (process_all_files e st0) = Returned"
    and "last (status_calls (fst (process_all_files e st0)))
         = plain_status ''error'' ''No files could be processed successfully''"
    and "summary_file (fst (process_all_files e st0)) = summary_file st0"
    and "published (fst (process_all_files e st0)) = published st0"
    and "processed (fst (process_all_files e st0)) = processed st0 @ fs"
  using fs ko
  by (simp_all add: process_all_files_def update_status_redis [OF r] Let_def)

lemma process_all_files_processed:
  assumes r: "redis_errors_only (hset e)"
    and fs: "find_unprocessed_files (data_path e) (listing e) = fs" "fs \<noteq> []"
  shows "processed (fst (process_all_files e st0)) = processed st0 @ fs"
  using fs
  by (simp add: process_all_files_def handler_def update_status_redis [OF r] Let_def
      split: option.splits)

lemma process_stock_data_hset [simp]:
  "process_stock_data (e\<lparr>hset := h\<rparr>) f = process_stock_data e f"
  by (simp add: process_stock_data_def)

lemma process_files_hset [simp]: "process_files (e\<lparr>hset := h\<rparr>) fs = process_files e fs"
  by (induction fs) (simp_all split: prod.splits bool.splits stats.splits)

lemma process_all_files_status_independent:
  assumes r: "redis_errors_only h"
  shows "map_prod without_status_store id (process_all_files (e\<lparr>hset := h\<rparr>) st0)
       = map_prod without_status_store id (process_all_files (e\<lparr>hset := \<lambda>d. None\<rparr>) st0)"
proof -
  have r1: "redis_errors_only (hset (e\<lparr>hset := h\<rparr>))" using r by simp
  have r2: "redis_errors_only (hset (e\<lparr>hset := \<lambda>d. None\<rparr>))"
    by (simp add: redis_errors_only_def)
  show ?thesis
    by (simp add: process_all_files_def handler_def update_status_redis [OF r1]
          update_status_redis [OF r2] Let_def without_status_store_def
          split: option.splits list.splits)
qed

lemma example_unprocessed:
  "find_unprocessed_files (data_path (example_env failing)) (listing (example_env failing))
   = [''/shared/data/stock_quotes_T1.csv'', ''/shared/data/stock_quotes_T2.csv'',
      ''/shared/data/stock_historical_T1.csv'']"
  by (simp add: example_env_def find_unprocessed_files_def glob_def glob_match_def path_join_def
        processed_names_def input_base_name_def suffix_def)

lemma example_redis: "redis_errors_only (hset (example_env failing))"
  by (simp add: example_env_def redis_errors_only_def)

text \<open>
  Claim C8. Let the status store raise nothing but Redis errors and let Work Discovery
  return the files \<open>fs\<close>, not empty. An exception in the body of \<open>process_stock_data\<close>
  comes back as \<open>(False, {'error': message})\<close>; every file of \<open>fs\<close> is handed to
  \<open>process_stock_data\<close> whatever happened to the files before it; the entries of the
  summary are the files whose body did not raise, in order. When at least one file
  succeeds and the summary file and the event bus accept the write, the batch summary is
  written, the event is published and the function returns. When no file succeeds the
  last status sent is \<open>error\<close>, nothing is written or published, and the function returns.
\<close>

theorem batch_isolates_file_failures:
  assumes r: "redis_errors_only (hset e)"
    and fs: "find_unprocessed_files (data_path e) (listing e) = fs" "fs \<noteq> []"
  shows "(\<forall>f ex. body e f = Inl ex \<longrightarrow> process_stock_data e f = (False, ErrorStats (exn_str ex)))
       \<and> processed (fst (process_all_files e st0)) = processed st0 @ fs
       \<and> map input_file (process_files e fs) = map basename (filter (\<lambda>f. \<not> isl (body e f)) fs)
       \<and> ((\<exists>f \<in> set fs. \<not> isl (body e f))
            \<and> write_summary e (build_summary (process_files e fs)) = None
            \<and> publish e (DataProcessed (length (process_files e fs))
                           (build_summary (process_files e fs))) = None
          \<longrightarrow> summary_file (fst (process_all_files e st0))
                = Some (build_summary (process_files e fs))
            \<and> files (build_summary (process_files e fs)) = process_files e fs
            \<and> published (fst (process_all_files e st0))
                = published st0 @ [DataProcessed (length (process_files e fs))
                                     (build_summary (process_files e fs))]
            \<and> snd (process_all_files e st0) = Returned)
       \<and> ((\<forall>f \<in> set fs. isl (body e f))
          \<longrightarrow> snd (process_all_files e st0) = Returned
            \<and> status (last (status_calls (fst (process_all_files e st0)))) = ''error''
            \<and> summary_file (fst (process_all_files e st0)) = summary_file st0
            \<and> published (fst (process_all_files e st0)) = published st0)"
proof (intro conjI allI impI)
  fix f ex assume "body e f = Inl ex"
  then show "process_stock_data e f = (False, ErrorStats (exn_str ex))"
    by (rule process_stock_data_failure)
next
  show "processed (fst (process_all_files e st0)) = processed st0 @ fs"
    by (rule process_all_files_processed [OF r fs])
next
  show "map input_file (process_files e fs) = map basename (filter (\<lambda>f. \<not> isl (body e f)) fs)"
    by (rule process_files_inputs)
next
  assume a: "(\<exists>f \<in> set fs. \<not> isl (body e f))
            \<and> write_summary e (build_summary (process_files e fs)) = None
            \<and> publish e (DataProcessed (length (process_files e fs))
                           (build_summary (process_files e fs))) = None"
  then have ok: "process_files e fs \<noteq> []" by (simp add: process_files_Nil_iff)
  note s = process_all_files_success [OF r fs ok, of st0]
  from a show "summary_file (fst (process_all_files e st0))
                = Some (build_summary (process_files e fs))" by (intro s) simp_all
  show "files (build_summary (process_files e fs)) = process_files e fs"
    by (simp add: build_summary_def)
  from a show "published (fst (process_all_files e st0))
                = published st0 @ [DataProcessed (length (process_files e fs))
                                     (build_summary (process_files e fs))]"
    by (intro s) simp_all
  from a show "snd (process_all_files e st0) = Returned" by (intro s) simp_all
next
  assume "\<forall>f \<in> set fs. isl (body e f)"
  then have ko: "process_files e fs = []" by (simp add: process_files_Nil_iff)
  note n = process_all_files_no_success [OF r fs ko, of st0]
  show "snd (process_all_files e st0) = Returned" by (rule n)
  show "status (last (status_calls (fst (process_all_files e st0)))) = ''error''"
    by (simp add: n plain_status_def)
  show "summary_file (fst (process_all_files e st0)) = summary_file st0" by (rule n)
  show "published (fst (process_all_files e st0)) = published st0" by (rule n)
qed

theorem batch_isolates_file_failures_witness:
  "process_stock_data (example_env [''/shared/data/stock_quotes_T2.csv''])
       ''/shared/data/stock_quotes_T2.csv''
     = (False, ErrorStats ''float division by zero'')
   \<and> processed (fst (process_all_files (example_env [''/shared/data/stock_quotes_T2.csv'']) no_effects))
     = [''/shared/data/stock_quotes_T1.csv'', ''/shared/data/stock_quotes_T2.csv'',
        ''/shared/data/stock_historical_T1.csv'']
   \<and> map input_file (process_files (example_env [''/shared/data/stock_quotes_T2.csv''])
         [''/shared/data/stock_quotes_T1.csv'', ''/shared/data/stock_quotes_T2.csv'',
          ''/shared/data/stock_historical_T1.csv''])
     = [''stock_quotes_T1.csv'', ''stock_historical_T1.csv'']
   \<and> snd (process_all_files (example_env [''/shared/data/stock_quotes_T2.csv'']) no_effects)
     = Returned
   \<and> length (published
        (fst (process_all_files (example_env [''/shared/data/stock_quotes_T2.csv'']) no_effects)))
     = 1"
  (is "process_stock_data ?e ?f = _ \<and> _")
proof -
  let ?fs = "[''/shared/data/stock_quotes_T1.csv'', ''/shared/data/stock_quotes_T2.csv'',
        ''/shared/data/stock_historical_T1.csv'']"
  have ne: "?fs \<noteq> []" by simp
  note t = batch_isolates_file_failures [OF example_redis example_unprocessed ne,
      of "[''/shared/data/stock_quotes_T2.csv'']" no_effects]
  have b: "body ?e ?f = Inl (ZeroDivisionError ''float division by zero'')"
    by (simp add: example_env_def)
  from t b have 1: "process_stock_data ?e ?f = (False, ErrorStats ''float division by zero'')"
    by simp
  from t have 2: "processed (fst (process_all_files ?e no_effects)) = ?fs"
    by (simp add: no_effects_def)
  from t have 3: "map input_file (process_files ?e ?fs) = [''stock_quotes_T1.csv'', ''stock_historical_T1.csv'']"
    by (simp add: example_env_def)
  have pre: "(\<exists>f \<in> set ?fs. \<not> isl (body ?e f))
            \<and> write_summary ?e (build_summary (process_files ?e ?fs)) = None
            \<and> publish ?e (DataProcessed (length (process_files ?e ?fs))
                           (build_summary (process_files ?e ?fs))) = None"
    by (simp add: example_env_def)
  from t pre have 4: "snd (process_all_files ?e no_effects) = Returned" by blast
  from t pre have "published (fst (process_all_files ?e no_effects))
                = published no_effects @ [DataProcessed (length (process_files ?e ?fs))
                                     (build_summary (process_files ?e ?fs))]" by blast
  then have 5: "length (published (fst (process_all_files ?e no_effects))) = 1"
    by (simp add: no_effects_def)
  from 1 2 3 4 5 show ?thesis by blast
qed


text \<open>
  Claim C10. When the status store raises a Redis error, \<open>update_status\<close> returns, and
  its caller sees the same state as after a successful write, the store's content apart.
  Two runs of \<open>process_all_files\<close> that differ only in which status writes fail hand the
  same files to processing, write the same summary, publish the same events and end the
  same way.
\<close>

theorem status_store_failure_is_harmless:
  assumes "redis_errors_only h" "redis_errors_only h'"
  shows "(\<exists>st'. update_status (e\<lparr>hset := h\<rparr>) d st = Inr st'
              \<and> without_status_store st'
                = without_status_store (st\<lparr>status_calls := status_calls st @ [d]\<rparr>))
       \<and> map_prod without_status_store id (process_all_files (e\<lparr>hset := h\<rparr>) st0)
         = map_prod without_status_store id (process_all_files (e\<lparr>hset := h'\<rparr>) st0)"
proof
  have r1: "redis_errors_only (hset (e\<lparr>hset := h\<rparr>))" using assms(1) by simp
  show "\<exists>st'. update_status (e\<lparr>hset := h\<rparr>) d st = Inr st'
              \<and> without_status_store st'
                = without_status_store (st\<lparr>status_calls := status_calls st @ [d]\<rparr>)"
    by (simp add: update_status_redis [OF r1] without_status_store_def)
next
  show "map_prod without_status_store id (process_all_files (e\<lparr>hset := h\<rparr>) st0)
         = map_prod without_status_store id (process_all_files (e\<lparr>hset := h'\<rparr>) st0)"
    using process_all_files_status_independent [OF assms(1), of e st0]
          process_all_files_status_independent [OF assms(2), of e st0] by simp
qed

theorem status_store_failure_is_harmless_witness:
  "(\<exists>st'. update_status ((example_env [])\<lparr>hset := \<lambda>d. Some (RedisError ''Connection refused'')\<rparr>)
             (plain_status ''processing'' ''Starting stock data processing'') no_effects = Inr st'
          \<and> without_status_store st'
            = without_status_store
                (no_effects\<lparr>status_calls := status_calls no_effects
                     @ [plain_status ''processing'' ''Starting stock data processing'']\<rparr>))
   \<and> map_prod without_status_store id
       (process_all_files ((example_env [])\<lparr>hset := \<lambda>d. Some (RedisError ''Connection refused'')\<rparr>)
          no_effects)
     = map_prod without_status_store id
       (process_all_files ((example_env [])\<lparr>hset := \<lambda>d. None\<rparr>) no_effects)"
proof -
  have a: "redis_errors_only (\<lambda>d. Some (RedisError ''Connection refused''))"
    by (simp add: redis_errors_only_def)
  have b: "redis_errors_only (\<lambda>d. None)"
    by (simp add: redis_errors_only_def)
  from status_store_failure_is_harmless [OF a b] show ?thesis by blast
qed

end
